theory Spec2Isabelle
  imports Complex_Main "HOL-Library.Word"
begin

section \<open>JavaScript values\<close>

text \<open>
  The library is written in TypeScript and handles untyped values: keys, cached data and
  thrown errors are all of type \<open>any\<close>. The model keeps one datatype of values.

  \<^item> A number is \<open>NaN\<close>, an infinity, the negative zero or an integer from \<open>-2^53\<close> to
    \<open>2^53 - 1\<close>, kept as a 54-bit word read as a signed number. These are integers a double
    holds exactly, and \<open>String\<close> prints them as their decimal expansion. Other doubles
    (fractions, larger integers) are left out: of a key, the code only tests the truth
    value and takes the text.
  \<^item> An object is a reference \<open>JObj r\<close>; an array \<open>JArr r xs\<close> carries its reference and
    its elements. References are what the \<open>WeakMap\<close> of \<open>libs/hash\<close> is keyed by.
  \<^item> A function \<open>JFun src behaviour\<close> carries the text \<open>String\<close> gives for it and what a
    call with no argument does: return a value or throw one. A function need not do the
    same at every call (it may read variables that change, or make a new object each
    time), so the behaviour is given for every call by its number in the sequence of all
    calls of such functions; the state keeps that number (\<open>calls\<close> below).
  Symbols and BigInts are not modelled.
\<close>

datatype ('e, 'a) completion = Throw 'e | Return 'a

datatype jsnum = NaN | PosInfinity | NegInfinity | NegZero | Integer "54 word"

datatype jsval =
    JUndefined
  | JNull
  | JBool bool
  | JNum jsnum
  | JStr string
  | JObj nat
  | JArr nat "jsval list"
  | JFun string "nat \<Rightarrow> (jsval, jsval) completion"

text \<open>\<open>ToBoolean\<close>: the falsy values are \<open>undefined\<close>, \<open>null\<close>, \<open>false\<close>, \<open>0\<close>, \<open>-0\<close>,
  \<open>NaN\<close> and the empty string.\<close>

fun truthy :: "jsval \<Rightarrow> bool" where
  "truthy JUndefined = False"
| "truthy JNull = False"
| "truthy (JBool b) = b"
| "truthy (JNum n) = (n \<noteq> NaN \<and> n \<noteq> NegZero \<and> n \<noteq> Integer 0)"
| "truthy (JStr s) = (s \<noteq> [])"
| "truthy (JObj r) = True"
| "truthy (JArr r xs) = True"
| "truthy (JFun src behaviour) = True"

fun typeof_function :: "jsval \<Rightarrow> bool" where
  "typeof_function (JFun src behaviour) = True"
| "typeof_function v = False"

text \<open>\<open>typeof v === 'object'\<close> holds of \<open>null\<close>, of objects and of arrays.\<close>

fun typeof_object :: "jsval \<Rightarrow> bool" where
  "typeof_object JNull = True"
| "typeof_object (JObj r) = True"
| "typeof_object (JArr r xs) = True"
| "typeof_object v = False"

text \<open>Decimal digits of a natural number, as \<open>String\<close> prints a non-negative integer.\<close>

fun string_of_nat :: "nat \<Rightarrow> string" where
  "string_of_nat n =
     (if n < 10 then [''0123456789'' ! n]
      else string_of_nat (n div 10) @ [''0123456789'' ! (n mod 10)])"

declare string_of_nat.simps [simp del]

fun string_of_jsnum :: "jsnum \<Rightarrow> string" where
  "string_of_jsnum NaN = ''NaN''"
| "string_of_jsnum PosInfinity = ''Infinity''"
| "string_of_jsnum NegInfinity = ''-Infinity''"
| "string_of_jsnum NegZero = ''0''"
| "string_of_jsnum (Integer i) =
     (if sint i < 0 then ''-'' @ string_of_nat (nat (- sint i)) else string_of_nat (nat (sint i)))"

fun join_comma :: "string list \<Rightarrow> string" where
  "join_comma [] = []"
| "join_comma [s] = s"
| "join_comma (s # t # ss) = s @ '','' @ join_comma (t # ss)"

text \<open>\<open>String(v)\<close>. An object prints as \<open>Object.prototype.toString\<close> does, an array as the
  comma-joined texts of its elements with \<open>null\<close> and \<open>undefined\<close> printed empty.\<close>

fun js_String :: "jsval \<Rightarrow> string" where
  "js_String JUndefined = ''undefined''"
| "js_String JNull = ''null''"
| "js_String (JBool b) = (if b then ''true'' else ''false'')"
| "js_String (JNum n) = string_of_jsnum n"
| "js_String (JStr s) = s"
| "js_String (JObj r) = ''[object Object]''"
| "js_String (JArr r xs) =
     join_comma (map (\<lambda>x. case x of JUndefined \<Rightarrow> [] | JNull \<Rightarrow> [] | _ \<Rightarrow> js_String x) xs)"
| "js_String (JFun src behaviour) = src"

text \<open>Strict equality \<open>===\<close>: \<open>NaN\<close> differs from itself, the two zeros are equal,
  objects and arrays are compared by reference.\<close>

fun zero_num :: "jsnum \<Rightarrow> bool" where
  "zero_num NegZero = True"
| "zero_num (Integer i) = (i = 0)"
| "zero_num n = False"

fun strict_eq :: "jsval \<Rightarrow> jsval \<Rightarrow> bool" where
  "strict_eq (JNum a) (JNum b) =
     (a \<noteq> NaN \<and> b \<noteq> NaN \<and> (a = b \<or> (zero_num a \<and> zero_num b)))"
| "strict_eq (JArr r xs) (JArr s ys) = (r = s)"
| "strict_eq a b = (a = b)"

section \<open>libs/hash: the key of an argument array\<close>

text \<open>
  The module keeps a \<open>WeakMap\<close> from object references to numbers and a counter. An object
  met for the first time gets the counter's value, and the counter moves on. The record
  also keeps \<open>calls\<close>, the number of calls made so far to functions that came as values
  (key producers); \<open>hash\<close> does not touch it.
\<close>

record hash_state =
  table :: "nat \<Rightarrow> nat option"
  counter :: nat
  calls :: nat

fun ref_of :: "jsval \<Rightarrow> nat" where
  "ref_of (JObj r) = r"
| "ref_of (JArr r xs) = r"
| "ref_of v = 0"

text \<open>The body of the \<open>for\<close> loop of \<open>hash\<close>, over the remaining arguments; \<open>key\<close> is the
  text built so far.\<close>

fun hash_loop :: "hash_state \<Rightarrow> string \<Rightarrow> jsval list \<Rightarrow> hash_state \<times> string" where
  "hash_loop hs key [] = (hs, key)"
| "hash_loop hs key (a # args) =
     (if a = JNull \<or> \<not> typeof_object a then
        (case a of
           JStr s \<Rightarrow> hash_loop hs (key @ ''@'' @ (''\"'' @ s @ ''\"'')) args
         | _ \<Rightarrow> hash_loop hs (key @ ''@'' @ js_String a) args)
      else
        (case table hs (ref_of a) of
           None \<Rightarrow>
             hash_loop
               (hs\<lparr>table := (table hs)(ref_of a \<mapsto> counter hs), counter := counter hs + 1\<rparr>)
               (key @ ''@'' @ string_of_nat (counter hs)) args
         | Some h \<Rightarrow> hash_loop hs (key @ ''@'' @ string_of_nat h) args))"

definition hash :: "hash_state \<Rightarrow> jsval list \<Rightarrow> hash_state \<times> string" where
  "hash hs args = (if args = [] then (hs, []) else hash_loop hs ''arg'' args)"

section \<open>Cache\<close>

text \<open>
  \<open>serializeKey\<close> returns the canonical key, the argument array (\<open>None\<close> for \<open>null\<close>) and the
  key of the error slot. A key that is a function is called, once at every
  \<open>serializeKey\<close>; when the call throws, the key is the empty string. \<open>call_key\<close> is
  \<open>try { key = key() } catch (err) { key = '' }\<close>: the call is the one with the number
  \<open>calls\<close>, and it is counted.
\<close>

definition call_key :: "hash_state \<Rightarrow> jsval \<Rightarrow> hash_state \<times> jsval" where
  "call_key hs key =
     (case key of
        JFun src behaviour \<Rightarrow>
          (hs\<lparr>calls := calls hs + 1\<rparr>,
           case behaviour (calls hs) of Return v \<Rightarrow> v | Throw err \<Rightarrow> JStr [])
      | _ \<Rightarrow> (hs, key))"

definition serializeKey ::
    "hash_state \<Rightarrow> jsval \<Rightarrow> hash_state \<times> (string \<times> jsval list option \<times> string)" where
  "serializeKey hs key0 =
     (let (hs0, key1) = (if typeof_function key0 then call_key hs key0 else (hs, key0));
          (hs', key, args) =
            (case key1 of
               JArr r xs \<Rightarrow> (let (hs', k) = hash hs0 xs in (hs', k, Some xs))
             | _ \<Rightarrow> (hs0, js_String (if truthy key1 then key1 else JStr []), None));
          errorKey = (if key \<noteq> [] then ''err@'' @ key else [])
      in (hs', (key, args, errorKey)))"

text \<open>
  What \<open>serializeKey\<close> reads of the outcome of the key function's call: of an array its
  elements (not which array it is), of any other value the value; a call that throws
  counts as one that returns the empty string.
\<close>

definition key_value :: "(jsval, jsval) completion \<Rightarrow> jsval list + jsval" where
  "key_value res =
     (case res of
        Throw err \<Rightarrow> Inr (JStr [])
      | Return v \<Rightarrow> (case v of JArr r xs \<Rightarrow> Inl xs | _ \<Rightarrow> Inr v))"

text \<open>
  The cache is a \<open>Map\<close> from strings to values and an array of listeners. A listener is
  an opaque callback: the model gives each one a number and records the calls made.
\<close>

record Cache =
  cache_map :: "string \<Rightarrow> jsval option"
  listeners :: "nat list"
  notified :: "nat list"

definition notify :: "Cache \<Rightarrow> Cache" where
  "notify c = c\<lparr>notified := notified c @ listeners c\<rparr>"

text \<open>\<open>Map.get\<close> of an absent key is \<open>undefined\<close>.\<close>

definition Cache_get :: "hash_state \<Rightarrow> Cache \<Rightarrow> jsval \<Rightarrow> hash_state \<times> jsval" where
  "Cache_get hs c key =
     (let (hs', (k, args, errorKey)) = serializeKey hs key
      in (hs', case cache_map c k of None \<Rightarrow> JUndefined | Some v \<Rightarrow> v))"

definition Cache_set :: "hash_state \<Rightarrow> Cache \<Rightarrow> jsval \<Rightarrow> jsval \<Rightarrow> hash_state \<times> Cache" where
  "Cache_set hs c key val =
     (let (hs', (k, args, errorKey)) = serializeKey hs key
      in (hs', notify (c\<lparr>cache_map := (cache_map c)(k \<mapsto> val)\<rparr>)))"

definition Cache_has :: "hash_state \<Rightarrow> Cache \<Rightarrow> jsval \<Rightarrow> hash_state \<times> bool" where
  "Cache_has hs c key =
     (let (hs', (k, args, errorKey)) = serializeKey hs key
      in (hs', cache_map c k \<noteq> None))"

definition Cache_clear :: "Cache \<Rightarrow> Cache" where
  "Cache_clear c = notify (c\<lparr>cache_map := Map.empty\<rparr>)"

definition Cache_delete :: "hash_state \<Rightarrow> Cache \<Rightarrow> jsval \<Rightarrow> hash_state \<times> Cache" where
  "Cache_delete hs c key =
     (let (hs', (k, args, errorKey)) = serializeKey hs key
      in (hs', notify (c\<lparr>cache_map := (cache_map c)(k := None)\<rparr>)))"

text \<open>
  Sequences of cache operations, to speak of what happens between a \<open>set\<close> and a later
  \<open>get\<close>. \<open>writes key op hs\<close> says whether the operation, run with the hash state \<open>hs\<close>,
  writes the entry of the canonical key \<open>key\<close>.
\<close>

datatype cache_op = Get jsval | Set jsval jsval | Has jsval | Delete jsval | Clear

fun run_op :: "cache_op \<Rightarrow> hash_state \<times> Cache \<Rightarrow> hash_state \<times> Cache" where
  "run_op (Get k) (hs, c) = (fst (Cache_get hs c k), c)"
| "run_op (Set k v) (hs, c) = Cache_set hs c k v"
| "run_op (Has k) (hs, c) = (fst (Cache_has hs c k), c)"
| "run_op (Delete k) (hs, c) = Cache_delete hs c k"
| "run_op Clear (hs, c) = (hs, Cache_clear c)"

fun run_ops :: "cache_op list \<Rightarrow> hash_state \<times> Cache \<Rightarrow> hash_state \<times> Cache" where
  "run_ops [] s = s"
| "run_ops (op # ops) s = run_ops ops (run_op op s)"

fun writes :: "string \<Rightarrow> cache_op \<Rightarrow> hash_state \<Rightarrow> bool" where
  "writes key (Set k v) hs = (fst (snd (serializeKey hs k)) = key)"
| "writes key (Delete k) hs = (fst (snd (serializeKey hs k)) = key)"
| "writes key Clear hs = True"
| "writes key (Get k) hs = False"
| "writes key (Has k) hs = False"

fun no_write :: "string \<Rightarrow> cache_op list \<Rightarrow> hash_state \<times> Cache \<Rightarrow> bool" where
  "no_write key [] s = True"
| "no_write key (op # ops) s = (\<not> writes key op (fst s) \<and> no_write key ops (run_op op s))"

section \<open>Promises, options and configuration\<close>

text \<open>
  A promise is a number; the world records how each promise has settled, if it has.
  What \<open>await\<close> is applied to is a promise or a plain value (a fetcher may return its data
  directly).
\<close>

datatype settlement = Fulfilled jsval | Rejected jsval

datatype awaitable = Promise nat | Plain jsval

text \<open>\<open>RevalidateOptionInterface\<close>: both properties are optional, \<open>None\<close> is an absent
  property.\<close>

record RevalidateOption =
  dedupe :: "bool option"
  retryCount :: "int option"

text \<open>\<open>Object.assign(target, source)\<close> on option objects: the properties the source has
  replace the target's.\<close>

definition Object_assign :: "RevalidateOption \<Rightarrow> RevalidateOption \<Rightarrow> RevalidateOption" where
  "Object_assign target source =
     \<lparr>dedupe = (case dedupe source of Some d \<Rightarrow> Some d | None \<Rightarrow> dedupe target),
      retryCount = (case retryCount source of Some n \<Rightarrow> Some n | None \<Rightarrow> retryCount target)\<rparr>"

text \<open>The configuration a hook was given. The event callbacks \<open>onLoadingSlow\<close>,
  \<open>onSuccess\<close> and \<open>onError\<close> are opaque and only recorded when called; \<open>onErrorRetry\<close> is
  the default of \<open>config.ts\<close> or a callback of the user's, recorded too.\<close>

datatype retry_handler = DefaultOnErrorRetry | CustomOnErrorRetry

record Config =
  errorRetryInterval :: int
  errorRetryCount :: "int option"
  dedupingInterval :: int
  loadingTimeout :: int
  shouldRetryOnError :: bool
  suspense :: bool
  initialData :: jsval
  compare :: "jsval \<Rightarrow> jsval \<Rightarrow> bool"
  onErrorRetryHandler :: retry_handler

section \<open>The state of a hook and of the module\<close>

text \<open>\<open>stateRef.current\<close>, the payload of \<open>dispatch\<close> (a partial state: \<open>None\<close> is an absent
  property) and \<open>stateDependencies.current\<close>.\<close>

record State =
  st_data :: jsval
  st_error :: jsval
  st_isValidating :: bool

record action =
  a_data :: "jsval option"
  a_error :: "jsval option"
  a_isValidating :: "bool option"

record Dependencies =
  dep_data :: bool
  dep_error :: bool
  dep_isValidating :: bool

text \<open>
  One mounted use of \<open>useSWR\<close>: what the closures \<open>revalidate\<close>, \<open>dispatch\<close> and \<open>onUpdate\<close>
  of one render see. The fetcher \<open>fn\<close> is absent or a function of its arguments; it may be
  impure, so it is also given the number of fetcher calls made so far. A call returns
  something to await, or throws. \<open>dispatch_cleared\<close> says that the effect's cleanup has run
  and replaced \<open>dispatch\<close> by a function that does nothing.
\<close>

record hook =
  h_key :: string
  h_fnArgs :: "jsval list option"
  h_keyErr :: string
  h_fn :: "(nat \<Rightarrow> jsval list \<Rightarrow> (jsval, awaitable) completion) option"
  h_config :: Config
  stateRef :: State
  stateDependencies :: Dependencies
  unmountedRef :: bool
  dispatch_cleared :: bool

text \<open>What the code does to the outside, in the order it does it.\<close>

datatype event =
    FetcherCalled nat "jsval list"
  | Rerender nat
  | OnLoadingSlow nat
  | OnSuccess nat jsval
  | OnError nat jsval
  | OnErrorRetry nat jsval RevalidateOption
  | Updated nat bool jsval jsval bool

text \<open>The callbacks given to \<open>setTimeout\<close>: the slow-loading signal of a hook, the removal
  of a key's request from the registry, and a retry of \<open>revalidate\<close> with its options.\<close>

datatype timer =
    LoadingSlow nat
  | ForgetRequest string
  | Retry nat RevalidateOption

text \<open>
  The module's global objects, the hooks, and the environment: the promises' settlements,
  the clock \<open>Date.now()\<close>, the visibility of the document, the values \<open>Math.random()\<close>
  will return, the timers set (callback and delay), and the trace of events.
\<close>

record world =
  hash_st :: hash_state
  cache :: Cache
  CONCURRENT_PROMISES :: "string \<Rightarrow> awaitable option"
  CONCURRENT_PROMISES_TS :: "string \<Rightarrow> int option"
  MUTATION_TS :: "string \<Rightarrow> int option"
  MUTATION_END_TS :: "string \<Rightarrow> int option"
  CACHE_REVALIDATORS :: "string \<Rightarrow> nat list option"
  hooks :: "nat \<Rightarrow> hook"
  promises :: "nat \<Rightarrow> settlement option"
  now :: int
  documentVisible :: bool
  randoms :: "nat \<Rightarrow> rat"
  randoms_used :: nat
  fetches :: nat
  timers :: "(timer \<times> int) list"
  trace :: "event list"

definition cache_get :: "world \<Rightarrow> string \<Rightarrow> jsval" where
  "cache_get w key = snd (Cache_get (hash_st w) (cache w) (JStr key))"

definition cache_set :: "string \<Rightarrow> jsval \<Rightarrow> world \<Rightarrow> world" where
  "cache_set key val w =
     (let (hs', c') = Cache_set (hash_st w) (cache w) (JStr key) val
      in w\<lparr>hash_st := hs', cache := c'\<rparr>)"

definition setTimeout :: "timer \<Rightarrow> int \<Rightarrow> world \<Rightarrow> world" where
  "setTimeout callback delay w = w\<lparr>timers := timers w @ [(callback, delay)]\<rparr>"

definition Math_random :: "world \<Rightarrow> rat \<times> world" where
  "Math_random w = (randoms w (randoms_used w), w\<lparr>randoms_used := randoms_used w + 1\<rparr>)"

text \<open>Comparisons of timestamps read from the registries: a missing entry is \<open>undefined\<close>,
  and \<open>undefined\<close> compared with a number is false.\<close>

definition js_gt :: "int option \<Rightarrow> int option \<Rightarrow> bool" where
  "js_gt a b = (case (a, b) of (Some x, Some y) \<Rightarrow> x > y | _ \<Rightarrow> False)"

definition js_le :: "int option \<Rightarrow> int option \<Rightarrow> bool" where
  "js_le a b = (case (a, b) of (Some x, Some y) \<Rightarrow> x \<le> y | _ \<Rightarrow> False)"

definition ts_truthy :: "int option \<Rightarrow> bool" where
  "ts_truthy a = (case a of Some x \<Rightarrow> x \<noteq> 0 | None \<Rightarrow> False)"

section \<open>config.ts: the default retry\<close>

text \<open>\<open>ToInt32\<close> of an integer, \<open>~~x\<close> (truncation, then \<open>ToInt32\<close>) and \<open>1 << count\<close> (the
  shift count is taken modulo 32, the result is a 32-bit signed integer).\<close>

definition ToInt32 :: "int \<Rightarrow> int" where
  "ToInt32 i = (i + 2 ^ 31) mod 2 ^ 32 - 2 ^ 31"

definition truncate_rat :: "rat \<Rightarrow> int" where
  "truncate_rat x = (if 0 \<le> x then \<lfloor>x\<rfloor> else \<lceil>x\<rceil>)"

definition tilde_tilde :: "rat \<Rightarrow> int" where
  "tilde_tilde x = ToInt32 (truncate_rat x)"

definition shift_left_1 :: "int \<Rightarrow> int" where
  "shift_left_1 count = ToInt32 (2 ^ nat (count mod 32))"

text \<open>\<open>opts.retryCount || 0\<close>.\<close>

definition retryCount_or_0 :: "RevalidateOption \<Rightarrow> int" where
  "retryCount_or_0 opts = (case retryCount opts of Some n \<Rightarrow> n | None \<Rightarrow> 0)"

text \<open>\<open>typeof config.errorRetryCount === 'number' && opts.retryCount > config.errorRetryCount\<close>.\<close>

definition exceeds_retries :: "Config \<Rightarrow> RevalidateOption \<Rightarrow> bool" where
  "exceeds_retries config opts =
     (case errorRetryCount config of
        Some m \<Rightarrow> js_gt (retryCount opts) (Some m)
      | None \<Rightarrow> False)"

text \<open>
  The arithmetic of numbers is that of IEEE 754 doubles: the result of \<open>+\<close> and of \<open>*\<close> is
  the exact result rounded to the nearest double, a tie going to the double whose last
  bit is zero. A double is a rational \<open>m * 2^e\<close> with \<open>\<bar>m\<bar> < 2^53\<close> and \<open>-1074 \<le> e\<close>.
  \<open>exponent x\<close> is the \<open>e\<close> with \<open>2^e \<le> \<bar>x\<bar> < 2^(e + 1)\<close>, and \<open>ulp x\<close> the distance between
  the doubles around \<open>x\<close> (below \<open>2^-1022\<close> the doubles are evenly spaced). The model has no
  infinities: a result beyond the largest double, about \<open>1.8 * 10^308\<close>, is rounded like
  any other.
\<close>

fun bit_length :: "nat \<Rightarrow> nat" where
  "bit_length n = (if n = 0 then 0 else Suc (bit_length (n div 2)))"

declare bit_length.simps [simp del]

definition pow2 :: "int \<Rightarrow> rat" where
  "pow2 e = (if 0 \<le> e then 2 ^ nat e else 1 / 2 ^ nat (- e))"

definition exponent :: "rat \<Rightarrow> int" where
  "exponent x =
     (if 1 \<le> \<bar>x\<bar> then int (bit_length (nat \<lfloor>\<bar>x\<bar>\<rfloor>)) - 1
      else - int (bit_length (nat (\<lceil>1 / \<bar>x\<bar>\<rceil> - 1))))"

definition ulp :: "rat \<Rightarrow> rat" where
  "ulp x = pow2 (max (exponent x) (- 1022) - 52)"

definition round_half_even :: "rat \<Rightarrow> int" where
  "round_half_even y =
     (let f = \<lfloor>y\<rfloor>; d = y - of_int f
      in if d < 1 / 2 then f
         else if 1 / 2 < d then f + 1
         else if even f then f else f + 1)"

definition binary64 :: "rat \<Rightarrow> rat" where
  "binary64 x = (if x = 0 then 0 else of_int (round_half_even (x / ulp x)) * ulp x)"

text \<open>
  \<open>~~((Math.random() + 0.5) * (1 << count)) * config.errorRetryInterval\<close>, with
  \<open>count = Math.min(opts.retryCount || 0, 8)\<close>: a sum and two products of doubles. The
  last product is of two integers, and so is its rounded value, which is the delay.
\<close>

definition retry_timeout :: "rat \<Rightarrow> RevalidateOption \<Rightarrow> Config \<Rightarrow> int" where
  "retry_timeout random opts config =
     (let count = min (retryCount_or_0 opts) 8
      in \<lfloor>binary64
            (of_int (tilde_tilde (binary64 (binary64 (random + 1 / 2) * of_int (shift_left_1 count))))
             * of_int (errorRetryInterval config))\<rfloor>)"

text \<open>\<open>onErrorRetry(_, __, config, revalidate, opts)\<close>; \<open>revalidate\<close> is the hook's, so the
  hook stands for it.\<close>

definition onErrorRetry :: "Config \<Rightarrow> nat \<Rightarrow> RevalidateOption \<Rightarrow> world \<Rightarrow> world" where
  "onErrorRetry config hid opts w =
     (if \<not> documentVisible w then w
      else if exceeds_retries config opts then w
      else
        (let (random, w1) = Math_random w
         in setTimeout (Retry hid opts) (retry_timeout random opts config) w1))"

section \<open>use-swr.ts: dispatch, events and the subscribers\<close>

definition apply_action :: "action \<Rightarrow> State \<Rightarrow> State" where
  "apply_action payload s =
     \<lparr>st_data = (case a_data payload of Some v \<Rightarrow> v | None \<Rightarrow> st_data s),
      st_error = (case a_error payload of Some v \<Rightarrow> v | None \<Rightarrow> st_error s),
      st_isValidating = (case a_isValidating payload of Some b \<Rightarrow> b | None \<Rightarrow> st_isValidating s)\<rparr>"

definition shouldUpdateState :: "action \<Rightarrow> Dependencies \<Rightarrow> bool" where
  "shouldUpdateState payload deps =
     ((a_data payload \<noteq> None \<and> dep_data deps) \<or>
      (a_error payload \<noteq> None \<and> dep_error deps) \<or>
      (a_isValidating payload \<noteq> None \<and> dep_isValidating deps))"

definition dispatch :: "nat \<Rightarrow> action \<Rightarrow> world \<Rightarrow> world" where
  "dispatch hid payload w =
     (let h = hooks w hid in
      if dispatch_cleared h then w
      else
        (let w1 = w\<lparr>hooks := (hooks w)(hid := h\<lparr>stateRef := apply_action payload (stateRef h)\<rparr>)\<rparr>
         in if (shouldUpdateState payload (stateDependencies h) \<or> suspense (h_config h))
               \<and> \<not> unmountedRef h
            then w1\<lparr>trace := trace w1 @ [Rerender hid]\<rparr>
            else w1))"

text \<open>\<open>eventsRef.current.emit\<close>: nothing once the hook is unmounted.\<close>

definition emit :: "nat \<Rightarrow> event \<Rightarrow> world \<Rightarrow> world" where
  "emit hid ev w = (if unmountedRef (hooks w hid) then w else w\<lparr>trace := trace w @ [ev]\<rparr>)"

definition emit_onErrorRetry :: "nat \<Rightarrow> jsval \<Rightarrow> RevalidateOption \<Rightarrow> world \<Rightarrow> world" where
  "emit_onErrorRetry hid err opts w =
     (let h = hooks w hid in
      if unmountedRef h then w
      else
        (case onErrorRetryHandler (h_config h) of
           DefaultOnErrorRetry \<Rightarrow> onErrorRetry (h_config h) hid opts w
         | CustomOnErrorRetry \<Rightarrow> w\<lparr>trace := trace w @ [OnErrorRetry hid err opts]\<rparr>))"

text \<open>
  The first half of \<open>onUpdate\<close>, up to its \<open>dispatch\<close>: all of \<open>onUpdate\<close> when
  \<open>shouldRevalidate\<close> is false. The call itself is recorded in the trace.
\<close>

definition onUpdate_state :: "nat \<Rightarrow> bool \<Rightarrow> jsval \<Rightarrow> jsval \<Rightarrow> bool \<Rightarrow> world \<Rightarrow> world" where
  "onUpdate_state hid shouldRevalidate updatedData updatedError dedup w =
     (let w0 = w\<lparr>trace := trace w @ [Updated hid shouldRevalidate updatedData updatedError dedup]\<rparr>;
          h = hooks w0 hid;
          newData = updatedData \<noteq> JUndefined \<and> \<not> compare (h_config h) (st_data (stateRef h)) updatedData;
          newError = \<not> strict_eq (st_error (stateRef h)) updatedError;
          newState = \<lparr>a_data = (if newData then Some updatedData else None),
                      a_error = (if newError then Some updatedError else None),
                      a_isValidating = None\<rparr>
      in if newData \<or> newError then dispatch hid newState w0 else w0)"

text \<open>\<open>broadcastState\<close> calls every updater of the key with \<open>shouldRevalidate = false\<close> and
  no fourth argument, so \<open>dedupe\<close> takes its default \<open>true\<close>.\<close>

definition broadcastState :: "string \<Rightarrow> jsval \<Rightarrow> jsval \<Rightarrow> world \<Rightarrow> world" where
  "broadcastState key dat err w =
     (case CACHE_REVALIDATORS w key of
        Some updaters \<Rightarrow>
          (if key \<noteq> [] then fold (\<lambda>u. onUpdate_state u False dat err True) updaters w else w)
      | None \<Rightarrow> w)"

definition addRevalidator :: "string \<Rightarrow> nat \<Rightarrow> world \<Rightarrow> world" where
  "addRevalidator key callback w =
     (case CACHE_REVALIDATORS w key of
        None \<Rightarrow> w\<lparr>CACHE_REVALIDATORS := (CACHE_REVALIDATORS w)(key \<mapsto> [callback])\<rparr>
      | Some revalidators \<Rightarrow>
          w\<lparr>CACHE_REVALIDATORS := (CACHE_REVALIDATORS w)(key \<mapsto> revalidators @ [callback])\<rparr>)"

section \<open>use-swr.ts: revalidate\<close>

text \<open>
  \<open>revalidate\<close> is an \<open>async\<close> function with one \<open>await\<close>. The model splits it there: the
  call runs up to the \<open>await\<close> and either has resolved already or is suspended, and a
  suspended call is resumed once what it awaits has settled. The frame keeps the local
  variables the rest of the function reads. (The local \<open>loading\<close> is only read by the
  slow-loading timer; the timer is recorded, its firing is not modelled.)
\<close>

record frame =
  f_hook :: nat
  f_opts :: RevalidateOption
  f_shouldDeduping :: bool
  f_startAt :: "int option"
  f_awaiting :: awaitable

datatype revalidation = Resolved bool | Suspended frame

text \<open>Reading \<open>CONCURRENT_PROMISES[key]\<close>: a missing property is \<open>undefined\<close>.\<close>

definition read_promise :: "world \<Rightarrow> string \<Rightarrow> awaitable" where
  "read_promise w key = (case CONCURRENT_PROMISES w key of Some p \<Rightarrow> p | None \<Rightarrow> Plain JUndefined)"

text \<open>The \<open>catch\<close> block, up to the end of the function (which then returns \<open>true\<close>).\<close>

definition revalidate_catch :: "nat \<Rightarrow> RevalidateOption \<Rightarrow> bool \<Rightarrow> jsval \<Rightarrow> world \<Rightarrow> world" where
  "revalidate_catch hid revalidateOpts shouldDeduping err w =
     (let h = hooks w hid;
          key = h_key h;
          w1 = w\<lparr>CONCURRENT_PROMISES := (CONCURRENT_PROMISES w)(key := None),
                 CONCURRENT_PROMISES_TS := (CONCURRENT_PROMISES_TS w)(key := None)\<rparr>;
          w2 = cache_set (h_keyErr h) err w1;
          w3 = (if \<not> strict_eq (st_error (stateRef (hooks w2 hid))) err then
                  (let w' = dispatch hid
                              \<lparr>a_data = None, a_error = Some err, a_isValidating = Some False\<rparr> w2
                   in if \<not> shouldDeduping then broadcastState key JUndefined err w' else w')
                else w2);
          w4 = emit hid (OnError hid err) w3
      in if shouldRetryOnError (h_config h) then
           (let retryCount = retryCount_or_0 revalidateOpts + 1
            in emit_onErrorRetry hid err
                 (Object_assign (Object_assign \<lparr>dedupe = Some True, retryCount = None\<rparr> revalidateOpts)
                    \<lparr>dedupe = None, retryCount = Some retryCount\<rparr>)
                 w4)
         else w4)"

text \<open>The call, up to its \<open>await\<close>.\<close>

definition revalidate :: "nat \<Rightarrow> RevalidateOption \<Rightarrow> world \<Rightarrow> world \<times> revalidation" where
  "revalidate hid revalidateOpts0 w =
     (let h = hooks w hid; key = h_key h in
      case h_fn h of
        None \<Rightarrow> (w, Resolved False)
      | Some fn \<Rightarrow>
          if key = [] then (w, Resolved False)
          else if unmountedRef h then (w, Resolved False)
          else
            (let revalidateOpts = Object_assign \<lparr>dedupe = Some False, retryCount = None\<rparr> revalidateOpts0;
                 shouldDeduping =
                   (read_promise w key \<noteq> Plain JUndefined \<and> dedupe revalidateOpts = Some True);
                 w1 = dispatch hid \<lparr>a_data = None, a_error = None, a_isValidating = Some True\<rparr> w
             in if shouldDeduping then
                  (w1, Suspended
                         \<lparr>f_hook = hid, f_opts = revalidateOpts, f_shouldDeduping = True,
                          f_startAt = CONCURRENT_PROMISES_TS w1 key,
                          f_awaiting = read_promise w1 key\<rparr>)
                else
                  (let w2 = (if loadingTimeout (h_config h) \<noteq> 0 \<and> \<not> truthy (cache_get w1 key)
                             then setTimeout (LoadingSlow hid) (loadingTimeout (h_config h)) w1
                             else w1);
                       args = (case h_fnArgs h of Some fnArgs \<Rightarrow> fnArgs | None \<Rightarrow> [JStr key]);
                       w3 = w2\<lparr>fetches := fetches w2 + 1,
                               trace := trace w2 @ [FetcherCalled hid args]\<rparr>
                   in case fn (fetches w2) args of
                        Throw err \<Rightarrow> (revalidate_catch hid revalidateOpts False err w3, Resolved True)
                      | Return p \<Rightarrow>
                          (let w4 = w3\<lparr>CONCURRENT_PROMISES := (CONCURRENT_PROMISES w3)(key \<mapsto> p)\<rparr>;
                               startAt = now w4;
                               w5 = w4\<lparr>CONCURRENT_PROMISES_TS :=
                                         (CONCURRENT_PROMISES_TS w4)(key \<mapsto> startAt)\<rparr>
                           in (w5, Suspended
                                     \<lparr>f_hook = hid, f_opts = revalidateOpts, f_shouldDeduping = False,
                                      f_startAt = Some startAt, f_awaiting = p\<rparr>)))))"

text \<open>\<open>shouldIgnoreRequest\<close>, for a call that recorded \<open>startAt\<close>.\<close>

definition shouldIgnoreRequest :: "world \<Rightarrow> string \<Rightarrow> int option \<Rightarrow> bool" where
  "shouldIgnoreRequest w key startAt =
     (js_gt (CONCURRENT_PROMISES_TS w key) startAt \<or>
      (ts_truthy (MUTATION_TS w key) \<and>
         (js_le startAt (MUTATION_TS w key) \<or>
          js_le startAt (MUTATION_END_TS w key) \<or>
          MUTATION_END_TS w key = Some 0)))"

text \<open>The rest of the \<open>try\<close> block once the awaited value \<open>newData\<close> has arrived, and the
  value \<open>revalidate\<close> resolves to.\<close>

definition revalidate_fulfilled :: "frame \<Rightarrow> jsval \<Rightarrow> world \<Rightarrow> world \<times> bool" where
  "revalidate_fulfilled f newData w =
     (let hid = f_hook f; h = hooks w hid; key = h_key h;
          w1 = (if f_shouldDeduping f then w
                else emit hid (OnSuccess hid newData)
                       (setTimeout (ForgetRequest key) (dedupingInterval (h_config h)) w))
      in if shouldIgnoreRequest w1 key (f_startAt f) then
           (dispatch hid \<lparr>a_data = None, a_error = None, a_isValidating = Some False\<rparr> w1, False)
         else
           (let w2 = cache_set key newData w1;
                w3 = cache_set (h_keyErr h) JUndefined w2;
                s = stateRef (hooks w3 hid);
                newState =
                  \<lparr>a_data = (if \<not> compare (h_config h) (st_data s) newData then Some newData else None),
                   a_error = (if st_error s \<noteq> JUndefined then Some JUndefined else None),
                   a_isValidating = Some False\<rparr>;
                w4 = dispatch hid newState w3;
                w5 = (if \<not> f_shouldDeduping f then broadcastState key newData JUndefined w4 else w4)
            in (w5, True)))"

text \<open>\<open>await x\<close> continues once \<open>x\<close> has settled; a plain value is settled already.\<close>

definition await_result :: "world \<Rightarrow> awaitable \<Rightarrow> settlement option" where
  "await_result w a = (case a of Promise p \<Rightarrow> promises w p | Plain v \<Rightarrow> Some (Fulfilled v))"

text \<open>Resuming a suspended call: \<open>None\<close> while what it awaits is pending.\<close>

definition revalidate_resume :: "frame \<Rightarrow> world \<Rightarrow> (world \<times> bool) option" where
  "revalidate_resume f w =
     (case await_result w (f_awaiting f) of
        None \<Rightarrow> None
      | Some (Fulfilled newData) \<Rightarrow> Some (revalidate_fulfilled f newData w)
      | Some (Rejected err) \<Rightarrow>
          Some (revalidate_catch (f_hook f) (f_opts f) (f_shouldDeduping f) err w, True))"

section \<open>use-swr.ts: onUpdate, trigger and mutate\<close>

text \<open>\<open>onUpdate\<close> returns what \<open>revalidate\<close> returns, or \<open>false\<close>.\<close>

definition onUpdate ::
    "nat \<Rightarrow> bool \<Rightarrow> jsval \<Rightarrow> jsval \<Rightarrow> bool \<Rightarrow> world \<Rightarrow> world \<times> revalidation" where
  "onUpdate hid shouldRevalidate updatedData updatedError dedup w =
     (let w1 = onUpdate_state hid shouldRevalidate updatedData updatedError dedup w
      in if shouldRevalidate then
           (if dedup then revalidate hid \<lparr>dedupe = Some True, retryCount = None\<rparr> w1
            else revalidate hid \<lparr>dedupe = None, retryCount = None\<rparr> w1)
         else (w1, Resolved False))"

text \<open>The loop \<open>for (let i = 0; i < updaters.length; ++i)\<close> of \<open>trigger\<close> and \<open>mutate\<close>,
  from index \<open>i\<close> on; it collects what the updaters return.\<close>

fun call_updaters ::
    "nat list \<Rightarrow> nat \<Rightarrow> bool \<Rightarrow> jsval \<Rightarrow> jsval \<Rightarrow> world \<Rightarrow> world \<times> revalidation list" where
  "call_updaters [] i shouldRevalidate dat err w = (w, [])"
| "call_updaters (u # us) i shouldRevalidate dat err w =
     (let (w1, p) = onUpdate u shouldRevalidate dat err (i > 0) w;
          (w2, ps) = call_updaters us (i + 1) shouldRevalidate dat err w1
      in (w2, p # ps))"

text \<open>
  What \<open>trigger\<close> and \<open>mutate\<close> return: a settled promise, a call suspended at the \<open>await\<close>
  of the new data, or \<open>Promise.all(promises).then(...)\<close>, which waits for the updaters'
  revalidations and then throws the error, if it is truthy, or returns the cached value.
\<close>

record mutation =
  m_key :: string
  m_keyErr :: string
  m_shouldRevalidate :: bool
  m_beforeMutationTs :: "int option"
  m_beforeConcurrentPromisesTs :: "int option"
  m_awaiting :: awaitable

datatype mutate_status =
    Finished "(jsval, jsval) completion"
  | AwaitingData mutation
  | AwaitingRevalidations string jsval "revalidation list"

text \<open>The callback given to \<open>then\<close>, run when the revalidations are done.\<close>

definition then_cached :: "string \<Rightarrow> jsval \<Rightarrow> world \<Rightarrow> (jsval, jsval) completion" where
  "then_cached key err w = (if truthy err then Throw err else Return (cache_get w key))"

definition trigger :: "jsval \<Rightarrow> bool \<Rightarrow> world \<Rightarrow> world \<times> mutate_status" where
  "trigger key0 shouldRevalidate w =
     (let (hs', (key, args, keyErr)) = serializeKey (hash_st w) key0;
          w0 = w\<lparr>hash_st := hs'\<rparr>
      in if key = [] then (w0, Finished (Return JUndefined))
         else
           (case CACHE_REVALIDATORS w0 key of
              Some updaters \<Rightarrow>
                (let currentData = cache_get w0 key;
                     currentError = cache_get w0 keyErr;
                     (w1, ps) = call_updaters updaters 0 shouldRevalidate currentData currentError w0
                 in (w1, AwaitingRevalidations key JUndefined ps))
            | None \<Rightarrow> (w0, Finished (Return (cache_get w0 key)))))"

text \<open>The second argument of \<open>mutate\<close>: a value, a function of the cached value (which
  returns something to await, or throws), or a promise.\<close>

datatype mutate_data =
    Value jsval
  | Updater "jsval \<Rightarrow> (jsval, awaitable) completion"
  | Thenable nat

text \<open>The function from the check of the timestamps on, with the resolved \<open>data\<close> and the
  captured \<open>error\<close>.\<close>

definition mutate_persist :: "mutation \<Rightarrow> jsval \<Rightarrow> jsval \<Rightarrow> world \<Rightarrow> world \<times> mutate_status" where
  "mutate_persist m dat err w =
     (let key = m_key m in
      if m_beforeMutationTs m \<noteq> MUTATION_TS w key \<or>
         m_beforeConcurrentPromisesTs m \<noteq> CONCURRENT_PROMISES_TS w key
      then (w, Finished (if truthy err then Throw err else Return dat))
      else
        (let w1 = (if dat \<noteq> JUndefined then cache_set key dat w else w);
             w2 = cache_set (m_keyErr m) err w1;
             w3 = w2\<lparr>MUTATION_END_TS := (MUTATION_END_TS w2)(key \<mapsto> now w2 - 1)\<rparr>
         in case CACHE_REVALIDATORS w3 key of
              Some updaters \<Rightarrow>
                (let (w4, ps) = call_updaters updaters 0 (m_shouldRevalidate m) dat err w3
                 in (w4, AwaitingRevalidations key err ps))
            | None \<Rightarrow> (w3, Finished (if truthy err then Throw err else Return dat))))"

text \<open>The \<open>try\<close> around \<open>await _data(cache.get(key))\<close>: a call that throws is caught at
  once and the function goes on without suspending; otherwise it awaits what the call
  returned.\<close>

definition mutate_call ::
    "mutation \<Rightarrow> (jsval, awaitable) completion \<Rightarrow> world \<Rightarrow> world \<times> mutate_status" where
  "mutate_call m res w =
     (case res of
        Throw err \<Rightarrow> mutate_persist m JUndefined err w
      | Return a \<Rightarrow> (w, AwaitingData (m\<lparr>m_awaiting := a\<rparr>)))"

definition mutate :: "jsval \<Rightarrow> mutate_data \<Rightarrow> bool \<Rightarrow> world \<Rightarrow> world \<times> mutate_status" where
  "mutate key0 data0 shouldRevalidate w =
     (let (hs', (key, args, keyErr)) = serializeKey (hash_st w) key0;
          w0 = w\<lparr>hash_st := hs'\<rparr>
      in if key = [] then (w0, Finished (Return JUndefined))
         else if data0 = Value JUndefined then trigger key0 shouldRevalidate w0
         else
           (let w1 = w0\<lparr>MUTATION_TS := (MUTATION_TS w0)(key \<mapsto> now w0 - 1),
                        MUTATION_END_TS := (MUTATION_END_TS w0)(key \<mapsto> 0)\<rparr>;
                m = \<lparr>m_key = key, m_keyErr = keyErr, m_shouldRevalidate = shouldRevalidate,
                     m_beforeMutationTs = MUTATION_TS w1 key,
                     m_beforeConcurrentPromisesTs = CONCURRENT_PROMISES_TS w1 key,
                     m_awaiting = Plain JUndefined\<rparr>
            in case data0 of
                 Updater g \<Rightarrow> mutate_call m (g (cache_get w1 key)) w1
               | Value (JFun src behaviour) \<Rightarrow>
                   mutate_call m
                     (case behaviour (calls (hash_st w1)) of
                        Throw err \<Rightarrow> Throw err
                      | Return v \<Rightarrow> Return (Plain v))
                     (w1\<lparr>hash_st := (hash_st w1)\<lparr>calls := calls (hash_st w1) + 1\<rparr>\<rparr>)
               | Thenable p \<Rightarrow> (w1, AwaitingData (m\<lparr>m_awaiting := Promise p\<rparr>))
               | Value v \<Rightarrow> mutate_persist m v JUndefined w1))"

text \<open>Resuming \<open>mutate\<close> after its \<open>await\<close>: a fulfilled value is the data, a rejection is
  the captured error.\<close>

definition mutate_resume :: "mutation \<Rightarrow> world \<Rightarrow> (world \<times> mutate_status) option" where
  "mutate_resume m w =
     (case await_result w (m_awaiting m) of
        None \<Rightarrow> None
      | Some (Fulfilled v) \<Rightarrow> Some (mutate_persist m v JUndefined w)
      | Some (Rejected err) \<Rightarrow> Some (mutate_persist m JUndefined err w))"

section \<open>The hook's construction, the configuration's defaults, and traces\<close>

text \<open>\<open>defaultConfig\<close> of \<open>config.ts\<close>, as far as the model reads it. \<open>slowConnection\<close> is
  what the browser reports; \<open>deepEqual\<close> is the comparison of \<open>fast-deep-equal\<close>, which is
  not part of the repository and is a parameter here.\<close>

definition defaultConfig :: "bool \<Rightarrow> (jsval \<Rightarrow> jsval \<Rightarrow> bool) \<Rightarrow> Config" where
  "defaultConfig slowConnection deepEqual =
     \<lparr>errorRetryInterval = (if slowConnection then 10 else 5) * 1000,
      errorRetryCount = None,
      dedupingInterval = 2 * 1000,
      loadingTimeout = (if slowConnection then 5 else 3) * 1000,
      shouldRetryOnError = True,
      suspense = False,
      initialData = JUndefined,
      compare = deepEqual,
      onErrorRetryHandler = DefaultOnErrorRetry\<rparr>"

text \<open>The head of \<open>useSWR\<close>: the key is serialized, and the state starts from the cache
  (\<open>cache.get(key) || config.initialData\<close> and \<open>cache.get(keyErr)\<close>). \<open>config\<close> is the merged
  configuration.\<close>

definition useSWR ::
    "jsval \<Rightarrow> (nat \<Rightarrow> jsval list \<Rightarrow> (jsval, awaitable) completion) option \<Rightarrow> Config \<Rightarrow> world
      \<Rightarrow> world \<times> hook" where
  "useSWR key0 fn config w =
     (let (hs', (key, fnArgs, keyErr)) = serializeKey (hash_st w) key0;
          w0 = w\<lparr>hash_st := hs'\<rparr>;
          cached = cache_get w0 key;
          initialData = (if truthy cached then cached else initialData config);
          initialError = cache_get w0 keyErr
      in (w0,
          \<lparr>h_key = key, h_fnArgs = fnArgs, h_keyErr = keyErr, h_fn = fn, h_config = config,
           stateRef = \<lparr>st_data = initialData, st_error = initialError, st_isValidating = False\<rparr>,
           stateDependencies = \<lparr>dep_data = False, dep_error = False, dep_isValidating = False\<rparr>,
           unmountedRef = False, dispatch_cleared = False\<rparr>))"

text \<open>The module as it is loaded: empty registries and an empty cache. Every hook number
  stands for the hook \<open>h\<close> until a hook of its own is put there.\<close>

definition initial_world :: "hook \<Rightarrow> world" where
  "initial_world h =
     \<lparr>hash_st = \<lparr>table = Map.empty, counter = 0, calls = 0\<rparr>,
      cache = \<lparr>cache_map = Map.empty, listeners = [], notified = []\<rparr>,
      CONCURRENT_PROMISES = Map.empty,
      CONCURRENT_PROMISES_TS = Map.empty,
      MUTATION_TS = Map.empty,
      MUTATION_END_TS = Map.empty,
      CACHE_REVALIDATORS = Map.empty,
      hooks = (\<lambda>hid. h),
      promises = Map.empty,
      now = 1000,
      documentVisible = True,
      randoms = (\<lambda>i. 0),
      randoms_used = 0,
      fetches = 0,
      timers = [],
      trace = []\<rparr>"

text \<open>What the environment does: a pending promise settles, and time passes.\<close>

definition settle :: "nat \<Rightarrow> settlement \<Rightarrow> world \<Rightarrow> world" where
  "settle p s w =
     (case promises w p of None \<Rightarrow> w\<lparr>promises := (promises w)(p \<mapsto> s)\<rparr> | Some s' \<Rightarrow> w)"

definition advance_clock :: "int \<Rightarrow> world \<Rightarrow> world" where
  "advance_clock d w = w\<lparr>now := now w + max d 0\<rparr>"

text \<open>One call of \<open>revalidate\<close> run to its end, when what it awaits has settled.\<close>

definition attempt :: "nat \<Rightarrow> RevalidateOption \<Rightarrow> world \<Rightarrow> world" where
  "attempt hid opts w =
     (case revalidate hid opts w of
        (w1, Resolved b) \<Rightarrow> w1
      | (w1, Suspended f) \<Rightarrow>
          (case revalidate_resume f w1 of Some (w2, b) \<Rightarrow> w2 | None \<Rightarrow> w1))"

text \<open>Readings of the trace and of the timers: the calls of the subscribers' \<open>onUpdate\<close>,
  the calls of fetchers, and the retries set with their options and delays.\<close>

fun is_Updated :: "event \<Rightarrow> bool" where
  "is_Updated (Updated hid sr d e dd) = True"
| "is_Updated ev = False"

fun is_FetcherCalled :: "event \<Rightarrow> bool" where
  "is_FetcherCalled (FetcherCalled hid args) = True"
| "is_FetcherCalled ev = False"

definition updater_calls :: "world \<Rightarrow> event list" where
  "updater_calls w = filter is_Updated (trace w)"

definition fetcher_calls :: "world \<Rightarrow> event list" where
  "fetcher_calls w = filter is_FetcherCalled (trace w)"

fun retries :: "(timer \<times> int) list \<Rightarrow> (RevalidateOption \<times> int) list" where
  "retries [] = []"
| "retries ((Retry hid opts, delay) # ts) = (opts, delay) # retries ts"
| "retries (t # ts) = retries ts"

section \<open>Example worlds\<close>

text \<open>
  Two hooks \<open>0\<close> and \<open>1\<close> on the key \<open>user/1\<close>, with a fetcher whose \<open>n\<close>-th call returns the
  promise \<open>n\<close>. \<open>first_call\<close> is a plain \<open>revalidate()\<close> of hook \<open>0\<close> at time 1000; it
  suspends in \<open>first_frame\<close>. \<open>second_call\<close> is a \<open>revalidate()\<close> of hook \<open>1\<close> a second later.
\<close>

definition blank_hook :: hook where
  "blank_hook =
     \<lparr>h_key = [], h_fnArgs = None, h_keyErr = [], h_fn = None,
      h_config = defaultConfig False (=),
      stateRef = \<lparr>st_data = JUndefined, st_error = JUndefined, st_isValidating = False\<rparr>,
      stateDependencies = \<lparr>dep_data = False, dep_error = False, dep_isValidating = False\<rparr>,
      unmountedRef = False, dispatch_cleared = False\<rparr>"

definition user_hook :: hook where
  "user_hook =
     snd (useSWR (JStr ''user/1'') (Some (\<lambda>n args. Return (Promise n)))
            (defaultConfig False (=)) (initial_world blank_hook))"

definition user_world :: world where
  "user_world = addRevalidator ''user/1'' 1 (addRevalidator ''user/1'' 0 (initial_world user_hook))"

definition no_opts :: RevalidateOption where
  "no_opts = \<lparr>dedupe = None, retryCount = None\<rparr>"

definition first_call :: "world \<times> revalidation" where
  "first_call = revalidate 0 no_opts user_world"

definition first_frame :: frame where
  "first_frame =
     \<lparr>f_hook = 0, f_opts = \<lparr>dedupe = Some False, retryCount = None\<rparr>, f_shouldDeduping = False,
      f_startAt = Some 1000, f_awaiting = Promise 0\<rparr>"

definition second_call :: "world \<times> revalidation" where
  "second_call = revalidate 1 no_opts (advance_clock 1000 (fst first_call))"

text \<open>The first fetch is answered after the second one has started; it is answered, or
  fails, with no other call around.\<close>

definition racing_world :: world where
  "racing_world = settle 0 (Fulfilled (JStr ''A'')) (fst second_call)"

definition answered_world :: world where
  "answered_world = settle 0 (Fulfilled (JStr ''A'')) (fst first_call)"

definition failed_world :: world where
  "failed_world = settle 0 (Rejected (JObj 9)) (fst first_call)"

text \<open>While the first fetch is in flight, hook \<open>1\<close> calls \<open>revalidate({dedupe: true})\<close> and
  suspends in \<open>joined_frame\<close>. Then the fetch is answered and the first call is resumed,
  which gives \<open>first_answered\<close>; the call that joined is resumed after it.\<close>

definition dedupe_opts :: RevalidateOption where
  "dedupe_opts = \<lparr>dedupe = Some True, retryCount = None\<rparr>"

definition joined_call :: "world \<times> revalidation" where
  "joined_call = revalidate 1 dedupe_opts (fst first_call)"

definition joined_frame :: frame where
  "joined_frame =
     \<lparr>f_hook = 1, f_opts = dedupe_opts, f_shouldDeduping = True,
      f_startAt = Some 1000, f_awaiting = Promise 0\<rparr>"

definition delivered_world :: world where
  "delivered_world = settle 0 (Fulfilled (JStr ''A'')) (fst joined_call)"

definition first_answered :: world where
  "first_answered = fst (revalidate_fulfilled first_frame (JStr ''A'') delivered_world)"

text \<open>A \<open>mutate\<close> with a promise, overtaken by a second \<open>mutate\<close> of the same key before the
  promise is rejected.\<close>

definition slow_mutation :: "world \<times> mutate_status" where
  "slow_mutation = mutate (JStr ''user/1'') (Thenable 5) True (initial_world user_hook)"

definition pending_mutation :: mutation where
  "pending_mutation =
     \<lparr>m_key = ''user/1'', m_keyErr = ''err@user/1'', m_shouldRevalidate = True,
      m_beforeMutationTs = Some 999, m_beforeConcurrentPromisesTs = None,
      m_awaiting = Promise 5\<rparr>"

definition overtaken_world :: world where
  "overtaken_world =
     settle 5 (Rejected (JObj 3))
       (fst (mutate (JStr ''user/1'') (Value (JStr ''V2'')) False
               (advance_clock 10 (fst slow_mutation))))"

text \<open>A retry with count 3 when \<open>Math.random()\<close> returns a quarter; and a hook with
  \<open>errorRetryCount = 2\<close> in a world where every fetch is rejected.\<close>

definition retry3 :: RevalidateOption where
  "retry3 = \<lparr>dedupe = Some True, retryCount = Some 3\<rparr>"

definition lucky_world :: world where
  "lucky_world = user_world\<lparr>randoms := (\<lambda>i. 1 / 4)\<rparr>"

text \<open>The largest value below 1 that a \<open>Math.random()\<close> of 53 random bits returns, a
  retry with count 1, and a world where \<open>Math.random()\<close> returns that value.\<close>

definition almost_one :: rat where
  "almost_one = 1 - 1 / 2 ^ 53"

definition retry1 :: RevalidateOption where
  "retry1 = \<lparr>dedupe = Some True, retryCount = Some 1\<rparr>"

definition unlucky_world :: world where
  "unlucky_world = user_world\<lparr>randoms := (\<lambda>i. almost_one)\<rparr>"

definition failing_hook :: hook where
  "failing_hook = user_hook\<lparr>h_config := (defaultConfig False (=))\<lparr>errorRetryCount := Some 2\<rparr>\<rparr>"

definition failing_world :: world where
  "failing_world = (initial_world failing_hook)\<lparr>promises := (\<lambda>p. Some (Rejected (JObj 9)))\<rparr>"

definition empty_store :: "hash_state \<times> Cache" where
  "empty_store =
     (\<lparr>table = Map.empty, counter = 0, calls = 0\<rparr>,
      \<lparr>cache_map = Map.empty, listeners = [], notified = []\<rparr>)"

text \<open>Three key functions. \<open>() => ['user', {}]\<close> makes a new array with a new object at
  every call. \<open>() => ['user', session]\<close> makes a new array around the same object, but
  throws at its second call (say \<open>session\<close> is read through something not yet ready
  then). \<open>() => { throw ... }\<close> throws at every call.\<close>

definition fresh_object_key :: jsval where
  "fresh_object_key =
     JFun ''() => ['user', {}]''
       (\<lambda>n. Return (JArr (100 + 2 * n) [JStr ''user'', JObj (101 + 2 * n)]))"

definition session_key :: jsval where
  "session_key =
     JFun ''() => ['user', session]''
       (\<lambda>n. if n = 1 then Throw (JObj 50) else Return (JArr (100 + n) [JStr ''user'', JObj 7]))"

definition throwing_key :: jsval where
  "throwing_key = JFun ''() => { throw new Error() }'' (\<lambda>n. Throw (JObj (60 + n)))"

section \<open>Properties of the key codec and the cache\<close>

lemma serializeKey_string [simp]:
  "serializeKey hs (JStr s) = (hs, (s, None, if s \<noteq> [] then ''err@'' @ s else []))"
  by (simp add: serializeKey_def)

text \<open>The error key is the canonical key behind the prefix, and empty with it.\<close>

lemma serializeKey_errorKey:
  "serializeKey hs key = (hs', (k, args, errorKey)) \<Longrightarrow>
   errorKey = (if k \<noteq> [] then ''err@'' @ k else [])"
  by (auto simp: serializeKey_def Let_def split: prod.splits jsval.splits if_splits)

text \<open>Hashing an array only ever adds entries to the table, and the counter never goes
  back.\<close>

lemma hash_loop_keeps:
  "table hs r = Some h \<Longrightarrow> table (fst (hash_loop hs key args)) r = Some h"
proof (induction args arbitrary: hs key)
  case Nil
  then show ?case by simp
next
  case (Cons a args)
  show ?case
  proof (cases "a = JNull \<or> \<not> typeof_object a")
    case True
    with Cons show ?thesis by (cases a) auto
  next
    case False
    show ?thesis
    proof (cases "table hs (ref_of a)")
      case None
      with Cons.prems have "ref_of a \<noteq> r" by auto
      with None False Cons show ?thesis by simp
    next
      case (Some h')
      with False Cons show ?thesis by simp
    qed
  qed
qed

lemma hash_loop_counter: "counter hs \<le> counter (fst (hash_loop hs key args))"
proof (induction args arbitrary: hs key)
  case Nil
  then show ?case by simp
next
  case (Cons a args)
  show ?case
  proof (cases "a = JNull \<or> \<not> typeof_object a")
    case True
    with Cons [of hs] show ?thesis by (cases a) auto
  next
    case False
    show ?thesis
    proof (cases "table hs (ref_of a)")
      case None
      let ?hs1 = "hs\<lparr>table := (table hs)(ref_of a \<mapsto> counter hs), counter := counter hs + 1\<rparr>"
      from Cons [of ?hs1 "key @ ''@'' @ string_of_nat (counter hs)"]
      have "counter hs \<le> counter (fst (hash_loop ?hs1 (key @ ''@'' @ string_of_nat (counter hs)) args))"
        by simp
      with None False show ?thesis by simp
    next
      case (Some h)
      with False Cons [of hs] show ?thesis by simp
    qed
  qed
qed

text \<open>Hashing the same array again, in the state the first run left, gives the same key
  and leaves the state as it is: every object of the array is in the table by then.\<close>

lemma hash_loop_again:
  "hash_loop hs key args = (hs', k) \<Longrightarrow> hash_loop hs' key args = (hs', k)"
proof (induction args arbitrary: hs key)
  case Nil
  then show ?case by simp
next
  case (Cons a args)
  show ?case
  proof (cases "a = JNull \<or> \<not> typeof_object a")
    case True
    with Cons show ?thesis by (cases a) auto
  next
    case False
    show ?thesis
    proof (cases "table hs (ref_of a)")
      case None
      let ?hs1 = "hs\<lparr>table := (table hs)(ref_of a \<mapsto> counter hs), counter := counter hs + 1\<rparr>"
      let ?key1 = "key @ ''@'' @ string_of_nat (counter hs)"
      from None False Cons.prems have run: "hash_loop ?hs1 ?key1 args = (hs', k)" by simp
      have "table ?hs1 (ref_of a) = Some (counter hs)" by simp
      from hash_loop_keeps [OF this, of ?key1 args] run
      have "table hs' (ref_of a) = Some (counter hs)" by simp
      with False Cons.IH [OF run] show ?thesis by simp
    next
      case (Some h)
      with False Cons.prems have run: "hash_loop hs (key @ ''@'' @ string_of_nat h) args = (hs', k)"
        by simp
      from hash_loop_keeps [OF Some, of "key @ ''@'' @ string_of_nat h" args] run
      have "table hs' (ref_of a) = Some h" by simp
      with False Cons.IH [OF run] show ?thesis by simp
    qed
  qed
qed

text \<open>A run of the loop that leaves the state as it is gives the same key in every state
  whose table extends this one's.\<close>

lemma hash_loop_stable:
  "hash_loop hs key args = (hs, k) \<Longrightarrow> table hs \<subseteq>\<^sub>m table hs' \<Longrightarrow>
   hash_loop hs' key args = (hs', k)"
proof (induction args arbitrary: key)
  case Nil
  then show ?case by simp
next
  case (Cons a args)
  show ?case
  proof (cases "a = JNull \<or> \<not> typeof_object a")
    case True
    with Cons show ?thesis by (cases a) auto
  next
    case False
    show ?thesis
    proof (cases "table hs (ref_of a)")
      case None
      let ?hs1 = "hs\<lparr>table := (table hs)(ref_of a \<mapsto> counter hs), counter := counter hs + 1\<rparr>"
      let ?key1 = "key @ ''@'' @ string_of_nat (counter hs)"
      from None False Cons.prems(1) have "hash_loop ?hs1 ?key1 args = (hs, k)" by simp
      with hash_loop_counter [of ?hs1 ?key1 args] have "counter hs + 1 \<le> counter hs" by simp
      then show ?thesis by simp
    next
      case (Some h)
      with Cons.prems(2) have "table hs' (ref_of a) = Some h"
        by (auto simp: map_le_def dom_def)
      with Some False Cons show ?thesis by simp
    qed
  qed
qed

lemma hash_again: "hash hs args = (hs', k) \<Longrightarrow> hash hs' args = (hs', k)"
  by (auto simp: hash_def hash_loop_again split: if_splits)

text \<open>A key that is not a function: \<open>serializeKey\<close> in a state whose table extends the one
  an earlier \<open>serializeKey\<close> of the key left gives the same result. The key may be another
  array, as long as the elements are the same.\<close>

lemma serializeKey_value_settled:
  assumes nf: "\<not> typeof_function v1"
    and same: "key_value (Return v1) = key_value (Return v2)"
    and first: "serializeKey hsA v1 = (hs1, res)"
    and ext: "table hs1 \<subseteq>\<^sub>m table hsB"
  shows "serializeKey hsB v2 = (hsB, res)"
proof (cases v1)
  case (JArr r xs)
  with same obtain r' where v2: "v2 = JArr r' xs"
    by (cases v2) (simp_all add: key_value_def)
  obtain hs' k where h: "hash hsA xs = (hs', k)" by (cases "hash hsA xs")
  with first JArr have hs': "hs' = hs1"
    and res: "res = (k, Some xs, if k \<noteq> [] then ''err@'' @ k else [])"
    by (auto simp: serializeKey_def Let_def)
  from h hs' have "hash hs1 xs = (hs1, k)" by (simp add: hash_again)
  have "hash hsB xs = (hsB, k)"
  proof (cases "xs = []")
    case True
    with \<open>hash hs1 xs = (hs1, k)\<close> show ?thesis by (simp add: hash_def)
  next
    case False
    with \<open>hash hs1 xs = (hs1, k)\<close> have "hash_loop hs1 ''arg'' xs = (hs1, k)" by (simp add: hash_def)
    from hash_loop_stable [OF this ext] False show ?thesis by (simp add: hash_def)
  qed
  then show ?thesis by (simp add: v2 res serializeKey_def)
next
  case (JFun src f)
  with nf show ?thesis by simp
qed (use same first in \<open>auto simp: key_value_def serializeKey_def Let_def split: jsval.splits\<close>)

text \<open>A key that is a function: \<open>serializeKey\<close> is the call and then, for a result that is
  not itself a function, \<open>serializeKey\<close> of the result.\<close>

lemma serializeKey_call:
  assumes "call_key hs (JFun src f) = (hs0, v)" and "\<not> typeof_function v"
  shows "serializeKey hs (JFun src f) = serializeKey hs0 v"
  using assms by (simp add: serializeKey_def)

lemma call_key_table: "table (fst (call_key hs K)) = table hs"
  by (cases K) (simp_all add: call_key_def)

text \<open>Any key: the canonical key that \<open>serializeKey\<close> computes is the one an earlier
  \<open>serializeKey\<close> of the key computed, when the table has only grown since and, for a
  key function, this call gives what that call gave.\<close>

lemma serializeKey_settled:
  assumes first: "serializeKey hs K = (hs1, res)"
    and ext: "table hs1 \<subseteq>\<^sub>m table hs2"
    and same: "\<forall>src f. K = JFun src f \<longrightarrow> key_value (f (calls hs2)) = key_value (f (calls hs))"
  shows "snd (serializeKey hs2 K) = res"
proof (cases "typeof_function K")
  case False
  from serializeKey_value_settled [OF False refl first ext] show ?thesis by simp
next
  case True
  then obtain src f where K: "K = JFun src f" by (cases K) simp_all
  with same have kv: "key_value (f (calls hs2)) = key_value (f (calls hs))" by simp
  obtain hs0 v1 where c1: "call_key hs K = (hs0, v1)" by (cases "call_key hs K")
  obtain hs3 v2 where c2: "call_key hs2 K = (hs3, v2)" by (cases "call_key hs2 K")
  from c1 K have v1: "key_value (Return v1) = key_value (f (calls hs))"
    by (auto simp: call_key_def key_value_def split: completion.splits)
  from c2 K have v2: "key_value (Return v2) = key_value (f (calls hs2))"
    by (auto simp: call_key_def key_value_def split: completion.splits)
  from v1 v2 kv have eq: "key_value (Return v1) = key_value (Return v2)" by simp
  from call_key_table [of hs2 K] c2 ext have ext3: "table hs1 \<subseteq>\<^sub>m table hs3" by simp
  show ?thesis
  proof (cases "typeof_function v1")
    case False
    from serializeKey_call [OF c1 [unfolded K] False] first K
    have "serializeKey hs0 v1 = (hs1, res)" by simp
    from serializeKey_value_settled [OF False eq this ext3]
    have s: "serializeKey hs3 v2 = (hs3, res)" .
    from False eq have "\<not> typeof_function v2"
      by (cases v1; cases v2) (simp_all add: key_value_def)
    from serializeKey_call [OF c2 [unfolded K] this] s K show ?thesis by simp
  next
    case True
    with eq have "v2 = v1" by (cases v1; cases v2) (simp_all add: key_value_def)
    with True c1 c2 first K show ?thesis
      by (cases v1) (auto simp: serializeKey_def)
  qed
qed

lemma serializeKey_extends: "table hs \<subseteq>\<^sub>m table (fst (serializeKey hs key))"
proof -
  obtain hs0 key1 where c: "(if typeof_function key then call_key hs key else (hs, key)) = (hs0, key1)"
    by (cases "if typeof_function key then call_key hs key else (hs, key)")
  then have t: "table hs0 = table hs" using call_key_table [of hs key] by (auto split: if_splits)
  show ?thesis
  proof (cases key1)
    case (JArr r xs)
    have "table hs0 \<subseteq>\<^sub>m table (fst (hash hs0 xs))"
      by (auto simp: map_le_def hash_def hash_loop_keeps)
    with JArr c t show ?thesis by (auto simp: serializeKey_def Let_def split: prod.splits)
  qed (use c t in \<open>auto simp: serializeKey_def Let_def\<close>)
qed

lemma Cache_ops_hash [simp]:
  "fst (Cache_get hs c k) = fst (serializeKey hs k)"
  "fst (Cache_set hs c k v) = fst (serializeKey hs k)"
  "fst (Cache_has hs c k) = fst (serializeKey hs k)"
  "fst (Cache_delete hs c k) = fst (serializeKey hs k)"
  by (simp_all add: Cache_get_def Cache_set_def Cache_has_def Cache_delete_def split: prod.splits)

lemma run_op_extends: "table (fst s) \<subseteq>\<^sub>m table (fst (run_op op s))"
  by (cases op; cases s) (simp_all add: serializeKey_extends)

lemma run_op_keeps_entry:
  "\<not> writes key op (fst s) \<Longrightarrow> cache_map (snd (run_op op s)) key = cache_map (snd s) key"
  by (cases op; cases s)
     (auto simp: Cache_set_def Cache_delete_def notify_def split: prod.splits)

lemma run_ops_keeps_entry:
  "no_write key ops s \<Longrightarrow> table hs1 \<subseteq>\<^sub>m table (fst s) \<Longrightarrow>
   cache_map (snd (run_ops ops s)) key = cache_map (snd s) key \<and>
   table hs1 \<subseteq>\<^sub>m table (fst (run_ops ops s))"
proof (induction ops arbitrary: s)
  case Nil
  then show ?case by simp
next
  case (Cons op ops)
  from Cons.prems have nw: "\<not> writes key op (fst s)" and rest: "no_write key ops (run_op op s)"
    by simp_all
  from Cons.prems(2) run_op_extends [of s op]
  have ext: "table hs1 \<subseteq>\<^sub>m table (fst (run_op op s))" by (rule map_le_trans)
  from Cons.IH [OF rest ext] run_op_keeps_entry [OF nw] show ?case by simp
qed

text \<open>
  C8. A key that is a function whose call throws: \<open>serializeKey\<close> returns the empty
  canonical key, no argument array and the empty error key, and raises nothing: its result
  is a value. The table of \<open>libs/hash\<close> and its counter are untouched; the state only
  counts the call. The function may do anything at its other calls.
\<close>

theorem serializeKey_throwing_producer:
  "f (calls hs) = Throw err \<Longrightarrow>
   serializeKey hs (JFun src f) = (hs\<lparr>calls := calls hs + 1\<rparr>, ([], None, []))"
  by (simp add: serializeKey_def call_key_def)

text \<open>Two instances: a function that throws at every call, and one that throws at its
  second call only, in the state its first call left.\<close>

theorem serializeKey_throwing_producer_witness:
  "serializeKey (fst empty_store) throwing_key
     = (\<lparr>table = Map.empty, counter = 0, calls = 1\<rparr>, ([], None, []))
   \<and> snd (serializeKey (fst (serializeKey (fst empty_store) session_key)) session_key)
     = ([], None, [])"
proof -
  have 1: "(\<lambda>n. Throw (JObj (60 + n))) (calls (fst empty_store)) = Throw (JObj 60)"
    by (simp add: empty_store_def)
  let ?f = "\<lambda>n::nat. if n = 1 then Throw (JObj 50) else Return (JArr (100 + n) [JStr ''user'', JObj 7])"
  let ?hs = "fst (serializeKey (fst empty_store) session_key)"
  have "calls ?hs = 1"
    by (simp add: empty_store_def session_key_def serializeKey_def call_key_def hash_def
          string_of_nat.simps)
  then have 2: "?f (calls ?hs) = Throw (JObj 50)" by simp
  from serializeKey_throwing_producer [of "\<lambda>n. Throw (JObj (60 + n))", OF 1]
    serializeKey_throwing_producer [of ?f, OF 2]
  show ?thesis by (simp add: throwing_key_def session_key_def empty_store_def)
qed

text \<open>
  C9. \<open>get(K)\<close> after \<open>set(K, X)\<close> returns \<open>X\<close> for every key that is not a function, and
  for a key that is a function when the call that \<open>get\<close> makes of it gives what the call
  that \<open>set\<close> made of it gave: the same value, or an array of the same elements, or both
  throw. This holds in any state of the cache and of the hash table (so after any
  earlier operations), for every value, whatever operations come in between as long as
  none of them writes the entry of the canonical key that \<open>set\<close> computed (a \<open>set\<close> or
  \<open>delete\<close> of a key with that canonical key, or \<open>clear\<close>). Both calls go through
  \<open>serializeKey\<close>, which calls a key function anew each time: the first puts the objects of
  an array key into the table of \<open>libs/hash\<close>, later calls only add to the table, so the
  \<open>get\<close> computes the same canonical key from the same elements.
\<close>

theorem Cache_set_get:
  assumes "no_write (fst (snd (serializeKey hs K))) ops (Cache_set hs c K X)"
    and "\<forall>src f. K = JFun src f \<longrightarrow>
           key_value (f (calls (fst (run_ops ops (Cache_set hs c K X))))) = key_value (f (calls hs))"
  shows "(case run_ops ops (Cache_set hs c K X) of (hs2, c2) \<Rightarrow> snd (Cache_get hs2 c2 K)) = X"
proof -
  obtain hs1 k args ek where s: "serializeKey hs K = (hs1, (k, args, ek))"
    by (metis prod_cases3 surj_pair)
  obtain c1 where set: "Cache_set hs c K X = (hs1, c1)" and c1: "cache_map c1 k = Some X"
    by (simp add: Cache_set_def s notify_def)
  obtain hs2 c2 where run: "run_ops ops (hs1, c1) = (hs2, c2)" by (cases "run_ops ops (hs1, c1)")
  from assms(1) s set have nw: "no_write k ops (hs1, c1)" by simp
  have "table hs1 \<subseteq>\<^sub>m table (fst (hs1, c1))" by simp
  from run_ops_keeps_entry [OF nw this] run c1
  have c2: "cache_map c2 k = Some X" and ext: "table hs1 \<subseteq>\<^sub>m table hs2" by simp_all
  from assms(2)
  have "\<forall>src f. K = JFun src f \<longrightarrow> key_value (f (calls hs2)) = key_value (f (calls hs))"
    by (simp only: set run fst_conv)
  from serializeKey_settled [OF s ext this] have "snd (serializeKey hs2 K) = (k, args, ek)" .
  then obtain hs3 where "serializeKey hs2 K = (hs3, (k, args, ek))"
    by (cases "serializeKey hs2 K") simp
  with c2 have "snd (Cache_get hs2 c2 K) = X" by (simp add: Cache_get_def)
  with set run show ?thesis by simp
qed

text \<open>An instance: the key is the function \<open>() => ['user', session]\<close>. Between the \<open>set\<close> and
  the \<open>get\<close> the same key is read once (the call throws, so this reads the entry of the
  empty key), an array key with another object is read, a string key is set, and a third
  key is deleted. The \<open>get\<close> is the third call of the function: it returns a new array
  with the elements of the first.\<close>

theorem Cache_set_get_witness:
  "(case run_ops
           [Get session_key, Get (JArr 2 [JObj 8]), Set (JStr ''other'') JNull,
            Delete (JArr 3 [JObj 8, JNum NaN])]
           (Cache_set (fst empty_store) (snd empty_store) session_key (JStr ''X'')) of
      (hs2, c2) \<Rightarrow> snd (Cache_get hs2 c2 session_key))
    = JStr ''X''"
proof -
  let ?ops = "[Get session_key, Get (JArr 2 [JObj 8]), Set (JStr ''other'') JNull,
               Delete (JArr 3 [JObj 8, JNum NaN])]"
  let ?set = "Cache_set (fst empty_store) (snd empty_store) session_key (JStr ''X'')"
  have 1: "no_write (fst (snd (serializeKey (fst empty_store) session_key))) ?ops ?set"
    by (simp add: empty_store_def session_key_def serializeKey_def call_key_def hash_def
          Cache_set_def Cache_get_def Cache_delete_def notify_def string_of_nat.simps)
  have "calls (fst (run_ops ?ops ?set)) = 2"
    by (simp add: empty_store_def session_key_def serializeKey_def call_key_def hash_def
          Cache_set_def Cache_get_def Cache_delete_def notify_def string_of_nat.simps)
  then have 2: "\<forall>src f. session_key = JFun src f \<longrightarrow>
           key_value (f (calls (fst (run_ops ?ops ?set)))) = key_value (f (calls (fst empty_store)))"
    by (simp add: session_key_def empty_store_def key_value_def)
  from Cache_set_get [OF 1 2] show ?thesis .
qed

text \<open>Without the condition on the key function the round trip fails: for
  \<open>() => ['user', {}]\<close>, in the empty cache, \<open>get(K)\<close> right after \<open>set(K, 'X')\<close> returns
  \<open>undefined\<close>. The \<open>set\<close> stores under \<open>arg@"user"@0\<close>; the object that the call in \<open>get\<close>
  makes is new to the table, so \<open>get\<close> looks under \<open>arg@"user"@1\<close>.\<close>

theorem Cache_set_get_fresh_object:
  "(case Cache_set (fst empty_store) (snd empty_store) fresh_object_key (JStr ''X'') of
      (hs1, c1) \<Rightarrow> snd (Cache_get hs1 c1 fresh_object_key))
    = JUndefined
   \<and> fst (snd (serializeKey (fst empty_store) fresh_object_key)) = ''arg@\"user\"@0''
   \<and> fst (snd (serializeKey (fst (serializeKey (fst empty_store) fresh_object_key))
                  fresh_object_key)) = ''arg@\"user\"@1''"
  by (simp add: empty_store_def fresh_object_key_def serializeKey_def call_key_def hash_def
        Cache_set_def Cache_get_def notify_def string_of_nat.simps)

text \<open>The falsy values are the seven the language has (of those modelled).\<close>

lemma falsy_iff:
  "(\<not> truthy v) =
     (v = JUndefined \<or> v = JNull \<or> v = JBool False \<or> v = JNum (Integer 0) \<or>
      v = JNum NegZero \<or> v = JNum NaN \<or> v = JStr [])"
  by (cases v) auto

lemma serializeKey_falsy:
  "\<not> truthy key \<Longrightarrow> serializeKey hs key = (hs, ([], None, []))"
  by (cases key) (auto simp: serializeKey_def)

section \<open>What the helpers of use-swr.ts leave alone\<close>

lemma fold_preserves: "(\<And>u w. P (f u w) = P w) \<Longrightarrow> P (fold f us w) = P w"
  by (induction us arbitrary: w) simp_all

lemma cache_get_eq [simp]:
  "cache_get w k = (case cache_map (cache w) k of None \<Rightarrow> JUndefined | Some v \<Rightarrow> v)"
  by (simp add: cache_get_def Cache_get_def)

lemma cache_set_frame [simp]:
  "hash_st (cache_set k v w) = hash_st w"
  "cache_map (cache (cache_set k v w)) = (cache_map (cache w))(k \<mapsto> v)"
  "CONCURRENT_PROMISES (cache_set k v w) = CONCURRENT_PROMISES w"
  "CONCURRENT_PROMISES_TS (cache_set k v w) = CONCURRENT_PROMISES_TS w"
  "MUTATION_TS (cache_set k v w) = MUTATION_TS w"
  "MUTATION_END_TS (cache_set k v w) = MUTATION_END_TS w"
  "CACHE_REVALIDATORS (cache_set k v w) = CACHE_REVALIDATORS w"
  "hooks (cache_set k v w) = hooks w"
  "promises (cache_set k v w) = promises w"
  "now (cache_set k v w) = now w"
  "documentVisible (cache_set k v w) = documentVisible w"
  "randoms (cache_set k v w) = randoms w"
  "randoms_used (cache_set k v w) = randoms_used w"
  "fetches (cache_set k v w) = fetches w"
  "timers (cache_set k v w) = timers w"
  "trace (cache_set k v w) = trace w"
  by (simp_all add: cache_set_def Cache_set_def notify_def)

lemma dispatch_frame [simp]:
  "hash_st (dispatch hid a w) = hash_st w"
  "cache (dispatch hid a w) = cache w"
  "CONCURRENT_PROMISES (dispatch hid a w) = CONCURRENT_PROMISES w"
  "CONCURRENT_PROMISES_TS (dispatch hid a w) = CONCURRENT_PROMISES_TS w"
  "MUTATION_TS (dispatch hid a w) = MUTATION_TS w"
  "MUTATION_END_TS (dispatch hid a w) = MUTATION_END_TS w"
  "CACHE_REVALIDATORS (dispatch hid a w) = CACHE_REVALIDATORS w"
  "promises (dispatch hid a w) = promises w"
  "now (dispatch hid a w) = now w"
  "documentVisible (dispatch hid a w) = documentVisible w"
  "randoms (dispatch hid a w) = randoms w"
  "randoms_used (dispatch hid a w) = randoms_used w"
  "fetches (dispatch hid a w) = fetches w"
  "timers (dispatch hid a w) = timers w"
  by (simp_all add: dispatch_def Let_def)

lemma dispatch_hooks_static [simp]:
  "h_key (hooks (dispatch hid a w) x) = h_key (hooks w x)"
  "h_fnArgs (hooks (dispatch hid a w) x) = h_fnArgs (hooks w x)"
  "h_keyErr (hooks (dispatch hid a w) x) = h_keyErr (hooks w x)"
  "h_fn (hooks (dispatch hid a w) x) = h_fn (hooks w x)"
  "h_config (hooks (dispatch hid a w) x) = h_config (hooks w x)"
  "stateDependencies (hooks (dispatch hid a w) x) = stateDependencies (hooks w x)"
  "unmountedRef (hooks (dispatch hid a w) x) = unmountedRef (hooks w x)"
  "dispatch_cleared (hooks (dispatch hid a w) x) = dispatch_cleared (hooks w x)"
  by (simp_all add: dispatch_def Let_def)

lemma dispatch_other [simp]: "x \<noteq> hid \<Longrightarrow> hooks (dispatch hid a w) x = hooks w x"
  by (simp add: dispatch_def Let_def)

lemma dispatch_isValidating:
  "\<not> dispatch_cleared (hooks w hid) \<Longrightarrow>
   stateRef (hooks (dispatch hid \<lparr>a_data = None, a_error = None, a_isValidating = Some b\<rparr> w) hid)
     = (stateRef (hooks w hid))\<lparr>st_isValidating := b\<rparr>"
  by (simp add: dispatch_def Let_def apply_action_def)

lemma dispatch_isValidating_data:
  "st_data (stateRef (hooks (dispatch hid \<lparr>a_data = None, a_error = None, a_isValidating = Some b\<rparr> w) hid))
     = st_data (stateRef (hooks w hid))"
  "st_error (stateRef (hooks (dispatch hid \<lparr>a_data = None, a_error = None, a_isValidating = Some b\<rparr> w) hid))
     = st_error (stateRef (hooks w hid))"
  by (simp_all add: dispatch_def Let_def apply_action_def)

lemma emit_frame [simp]:
  "hash_st (emit hid ev w) = hash_st w"
  "cache (emit hid ev w) = cache w"
  "CONCURRENT_PROMISES (emit hid ev w) = CONCURRENT_PROMISES w"
  "CONCURRENT_PROMISES_TS (emit hid ev w) = CONCURRENT_PROMISES_TS w"
  "MUTATION_TS (emit hid ev w) = MUTATION_TS w"
  "MUTATION_END_TS (emit hid ev w) = MUTATION_END_TS w"
  "CACHE_REVALIDATORS (emit hid ev w) = CACHE_REVALIDATORS w"
  "hooks (emit hid ev w) = hooks w"
  "promises (emit hid ev w) = promises w"
  "now (emit hid ev w) = now w"
  "documentVisible (emit hid ev w) = documentVisible w"
  "randoms (emit hid ev w) = randoms w"
  "randoms_used (emit hid ev w) = randoms_used w"
  "fetches (emit hid ev w) = fetches w"
  "timers (emit hid ev w) = timers w"
  by (simp_all add: emit_def)

lemma setTimeout_frame [simp]:
  "hash_st (setTimeout cb d w) = hash_st w"
  "cache (setTimeout cb d w) = cache w"
  "CONCURRENT_PROMISES (setTimeout cb d w) = CONCURRENT_PROMISES w"
  "CONCURRENT_PROMISES_TS (setTimeout cb d w) = CONCURRENT_PROMISES_TS w"
  "MUTATION_TS (setTimeout cb d w) = MUTATION_TS w"
  "MUTATION_END_TS (setTimeout cb d w) = MUTATION_END_TS w"
  "CACHE_REVALIDATORS (setTimeout cb d w) = CACHE_REVALIDATORS w"
  "hooks (setTimeout cb d w) = hooks w"
  "promises (setTimeout cb d w) = promises w"
  "now (setTimeout cb d w) = now w"
  "documentVisible (setTimeout cb d w) = documentVisible w"
  "randoms (setTimeout cb d w) = randoms w"
  "randoms_used (setTimeout cb d w) = randoms_used w"
  "fetches (setTimeout cb d w) = fetches w"
  "trace (setTimeout cb d w) = trace w"
  "timers (setTimeout cb d w) = timers w @ [(cb, d)]"
  by (simp_all add: setTimeout_def)

lemma onUpdate_state_frame [simp]:
  "hash_st (onUpdate_state u sr d e dd w) = hash_st w"
  "cache (onUpdate_state u sr d e dd w) = cache w"
  "CONCURRENT_PROMISES (onUpdate_state u sr d e dd w) = CONCURRENT_PROMISES w"
  "CONCURRENT_PROMISES_TS (onUpdate_state u sr d e dd w) = CONCURRENT_PROMISES_TS w"
  "MUTATION_TS (onUpdate_state u sr d e dd w) = MUTATION_TS w"
  "MUTATION_END_TS (onUpdate_state u sr d e dd w) = MUTATION_END_TS w"
  "CACHE_REVALIDATORS (onUpdate_state u sr d e dd w) = CACHE_REVALIDATORS w"
  "promises (onUpdate_state u sr d e dd w) = promises w"
  "now (onUpdate_state u sr d e dd w) = now w"
  "documentVisible (onUpdate_state u sr d e dd w) = documentVisible w"
  "randoms (onUpdate_state u sr d e dd w) = randoms w"
  "randoms_used (onUpdate_state u sr d e dd w) = randoms_used w"
  "fetches (onUpdate_state u sr d e dd w) = fetches w"
  "timers (onUpdate_state u sr d e dd w) = timers w"
  by (simp_all add: onUpdate_state_def Let_def)

lemma onUpdate_state_static [simp]:
  "h_key (hooks (onUpdate_state u sr d e dd w) x) = h_key (hooks w x)"
  "h_fnArgs (hooks (onUpdate_state u sr d e dd w) x) = h_fnArgs (hooks w x)"
  "h_keyErr (hooks (onUpdate_state u sr d e dd w) x) = h_keyErr (hooks w x)"
  "h_fn (hooks (onUpdate_state u sr d e dd w) x) = h_fn (hooks w x)"
  "h_config (hooks (onUpdate_state u sr d e dd w) x) = h_config (hooks w x)"
  "stateDependencies (hooks (onUpdate_state u sr d e dd w) x) = stateDependencies (hooks w x)"
  "unmountedRef (hooks (onUpdate_state u sr d e dd w) x) = unmountedRef (hooks w x)"
  "dispatch_cleared (hooks (onUpdate_state u sr d e dd w) x) = dispatch_cleared (hooks w x)"
  by (simp_all add: onUpdate_state_def Let_def)

lemma broadcastState_frame [simp]:
  "hash_st (broadcastState k d e w) = hash_st w"
  "cache (broadcastState k d e w) = cache w"
  "CONCURRENT_PROMISES (broadcastState k d e w) = CONCURRENT_PROMISES w"
  "CONCURRENT_PROMISES_TS (broadcastState k d e w) = CONCURRENT_PROMISES_TS w"
  "MUTATION_TS (broadcastState k d e w) = MUTATION_TS w"
  "MUTATION_END_TS (broadcastState k d e w) = MUTATION_END_TS w"
  "CACHE_REVALIDATORS (broadcastState k d e w) = CACHE_REVALIDATORS w"
  "promises (broadcastState k d e w) = promises w"
  "now (broadcastState k d e w) = now w"
  "documentVisible (broadcastState k d e w) = documentVisible w"
  "randoms (broadcastState k d e w) = randoms w"
  "randoms_used (broadcastState k d e w) = randoms_used w"
  "fetches (broadcastState k d e w) = fetches w"
  "timers (broadcastState k d e w) = timers w"
  by (simp_all add: broadcastState_def fold_preserves split: option.splits)

lemma broadcastState_static [simp]:
  "h_key (hooks (broadcastState k d e w) x) = h_key (hooks w x)"
  "h_fnArgs (hooks (broadcastState k d e w) x) = h_fnArgs (hooks w x)"
  "h_keyErr (hooks (broadcastState k d e w) x) = h_keyErr (hooks w x)"
  "h_fn (hooks (broadcastState k d e w) x) = h_fn (hooks w x)"
  "h_config (hooks (broadcastState k d e w) x) = h_config (hooks w x)"
  "stateDependencies (hooks (broadcastState k d e w) x) = stateDependencies (hooks w x)"
  "unmountedRef (hooks (broadcastState k d e w) x) = unmountedRef (hooks w x)"
  "dispatch_cleared (hooks (broadcastState k d e w) x) = dispatch_cleared (hooks w x)"
  by (simp_all add: broadcastState_def
        fold_preserves [where P = "\<lambda>w. h_key (hooks w x)"]
        fold_preserves [where P = "\<lambda>w. h_fnArgs (hooks w x)"]
        fold_preserves [where P = "\<lambda>w. h_keyErr (hooks w x)"]
        fold_preserves [where P = "\<lambda>w. h_fn (hooks w x)"]
        fold_preserves [where P = "\<lambda>w. h_config (hooks w x)"]
        fold_preserves [where P = "\<lambda>w. stateDependencies (hooks w x)"]
        fold_preserves [where P = "\<lambda>w. unmountedRef (hooks w x)"]
        fold_preserves [where P = "\<lambda>w. dispatch_cleared (hooks w x)"]
        split: option.splits)

lemma onErrorRetry_frame [simp]:
  "hash_st (onErrorRetry c hid opts w) = hash_st w"
  "cache (onErrorRetry c hid opts w) = cache w"
  "CONCURRENT_PROMISES (onErrorRetry c hid opts w) = CONCURRENT_PROMISES w"
  "CONCURRENT_PROMISES_TS (onErrorRetry c hid opts w) = CONCURRENT_PROMISES_TS w"
  "MUTATION_TS (onErrorRetry c hid opts w) = MUTATION_TS w"
  "MUTATION_END_TS (onErrorRetry c hid opts w) = MUTATION_END_TS w"
  "CACHE_REVALIDATORS (onErrorRetry c hid opts w) = CACHE_REVALIDATORS w"
  "hooks (onErrorRetry c hid opts w) = hooks w"
  "promises (onErrorRetry c hid opts w) = promises w"
  "now (onErrorRetry c hid opts w) = now w"
  "documentVisible (onErrorRetry c hid opts w) = documentVisible w"
  "randoms (onErrorRetry c hid opts w) = randoms w"
  "fetches (onErrorRetry c hid opts w) = fetches w"
  "trace (onErrorRetry c hid opts w) = trace w"
  by (simp_all add: onErrorRetry_def Math_random_def Let_def)

lemma emit_onErrorRetry_frame [simp]:
  "hash_st (emit_onErrorRetry hid err opts w) = hash_st w"
  "cache (emit_onErrorRetry hid err opts w) = cache w"
  "CONCURRENT_PROMISES (emit_onErrorRetry hid err opts w) = CONCURRENT_PROMISES w"
  "CONCURRENT_PROMISES_TS (emit_onErrorRetry hid err opts w) = CONCURRENT_PROMISES_TS w"
  "MUTATION_TS (emit_onErrorRetry hid err opts w) = MUTATION_TS w"
  "MUTATION_END_TS (emit_onErrorRetry hid err opts w) = MUTATION_END_TS w"
  "CACHE_REVALIDATORS (emit_onErrorRetry hid err opts w) = CACHE_REVALIDATORS w"
  "hooks (emit_onErrorRetry hid err opts w) = hooks w"
  "promises (emit_onErrorRetry hid err opts w) = promises w"
  "now (emit_onErrorRetry hid err opts w) = now w"
  "documentVisible (emit_onErrorRetry hid err opts w) = documentVisible w"
  "randoms (emit_onErrorRetry hid err opts w) = randoms w"
  "fetches (emit_onErrorRetry hid err opts w) = fetches w"
  by (simp_all add: emit_onErrorRetry_def Let_def split: retry_handler.splits)

lemma shouldIgnoreRequest_emit [simp]:
  "shouldIgnoreRequest (emit hid ev w) = shouldIgnoreRequest w"
  "shouldIgnoreRequest (setTimeout cb d w) = shouldIgnoreRequest w"
  by (simp_all add: shouldIgnoreRequest_def fun_eq_iff)

lemma dispatch_calls [simp]:
  "updater_calls (dispatch hid a w) = updater_calls w"
  "fetcher_calls (dispatch hid a w) = fetcher_calls w"
  by (simp_all add: updater_calls_def fetcher_calls_def dispatch_def Let_def)

lemma setTimeout_calls [simp]:
  "updater_calls (setTimeout cb d w) = updater_calls w"
  "fetcher_calls (setTimeout cb d w) = fetcher_calls w"
  by (simp_all add: updater_calls_def fetcher_calls_def)

lemma emit_OnSuccess_calls [simp]:
  "updater_calls (emit hid (OnSuccess h v) w) = updater_calls w"
  "fetcher_calls (emit hid (OnSuccess h v) w) = fetcher_calls w"
  by (simp_all add: updater_calls_def fetcher_calls_def emit_def)

text \<open>With \<open>shouldRevalidate = false\<close>, \<open>onUpdate\<close> is its first half and returns \<open>false\<close>:
  this is what \<open>broadcastState\<close> calls.\<close>

lemma onUpdate_False:
  "onUpdate hid False d e dd w = (onUpdate_state hid False d e dd w, Resolved False)"
  by (simp add: onUpdate_def)

text \<open>A hook made by \<open>useSWR\<close> has the error key of its key.\<close>

lemma useSWR_keyErr:
  "h_keyErr (snd (useSWR key0 fn config w)) =
     (if h_key (snd (useSWR key0 fn config w)) \<noteq> [] then
        ''err@'' @ h_key (snd (useSWR key0 fn config w))
      else [])"
proof -
  obtain hs' k args ek where s: "serializeKey (hash_st w) key0 = (hs', (k, args, ek))"
    by (metis prod_cases3 surj_pair)
  from serializeKey_errorKey [OF s] s show ?thesis by (simp add: useSWR_def Let_def)
qed

section \<open>The example worlds, evaluated\<close>

lemma user_hook_eq:
  "user_hook =
     \<lparr>h_key = ''user/1'', h_fnArgs = None, h_keyErr = ''err@user/1'',
      h_fn = Some (\<lambda>n args. Return (Promise n)),
      h_config = defaultConfig False (=),
      stateRef = \<lparr>st_data = JUndefined, st_error = JUndefined, st_isValidating = False\<rparr>,
      stateDependencies = \<lparr>dep_data = False, dep_error = False, dep_isValidating = False\<rparr>,
      unmountedRef = False, dispatch_cleared = False\<rparr>"
  by (simp add: user_hook_def useSWR_def initial_world_def defaultConfig_def)

lemma user_world_fields [simp]:
  "hooks user_world = (\<lambda>hid. user_hook)"
  "CONCURRENT_PROMISES user_world = Map.empty"
  "CONCURRENT_PROMISES_TS user_world = Map.empty"
  "MUTATION_TS user_world = Map.empty"
  "MUTATION_END_TS user_world = Map.empty"
  "CACHE_REVALIDATORS user_world = [''user/1'' \<mapsto> [0, 1]]"
  "cache user_world = \<lparr>cache_map = Map.empty, listeners = [], notified = []\<rparr>"
  "now user_world = 1000" "fetches user_world = 0" "timers user_world = []" "trace user_world = []"
  "promises user_world = Map.empty" "documentVisible user_world"
  by (simp_all add: user_world_def initial_world_def addRevalidator_def)

lemmas eval_defs =
  revalidate_def user_hook_eq no_opts_def Let_def Object_assign_def read_promise_def
  dispatch_def defaultConfig_def apply_action_def shouldUpdateState_def fetcher_calls_def
  setTimeout_def advance_clock_def settle_def await_result_def

lemma first_call_frame: "snd first_call = Suspended first_frame"
  by (simp add: first_call_def first_frame_def eval_defs)

lemma first_call_world [simp]:
  "CONCURRENT_PROMISES (fst first_call) = [''user/1'' \<mapsto> Promise 0]"
  "CONCURRENT_PROMISES_TS (fst first_call) = [''user/1'' \<mapsto> 1000]"
  "MUTATION_TS (fst first_call) = Map.empty"
  "MUTATION_END_TS (fst first_call) = Map.empty"
  "fetches (fst first_call) = 1"
  "fetcher_calls (fst first_call) = [FetcherCalled 0 [JStr ''user/1'']]"
  "promises (fst first_call) = Map.empty"
  "cache (fst first_call) = \<lparr>cache_map = Map.empty, listeners = [], notified = []\<rparr>"
  "hooks (fst first_call) (Suc 0) = user_hook"
  "h_key (hooks (fst first_call) 0) = ''user/1''"
  by (simp_all add: first_call_def eval_defs)

lemma racing_world_fields [simp]:
  "CONCURRENT_PROMISES_TS racing_world ''user/1'' = Some 2000"
  "await_result racing_world (Promise 0) = Some (Fulfilled (JStr ''A''))"
  "h_key (hooks racing_world 0) = ''user/1''"
  "\<not> dispatch_cleared (hooks racing_world 0)"
  by (simp_all add: racing_world_def second_call_def first_call_def eval_defs)

lemma answered_world_fields [simp]:
  "await_result answered_world (Promise 0) = Some (Fulfilled (JStr ''A''))"
  "h_key (hooks answered_world 0) = ''user/1''"
  "h_keyErr (hooks answered_world 0) = ''err@user/1''"
  "CONCURRENT_PROMISES_TS answered_world ''user/1'' = Some 1000"
  "MUTATION_TS answered_world ''user/1'' = None"
  by (simp_all add: answered_world_def first_call_def eval_defs)

lemma failed_world_fields [simp]:
  "await_result failed_world (Promise 0) = Some (Rejected (JObj 9))"
  "h_key (hooks failed_world 0) = ''user/1''"
  "h_keyErr (hooks failed_world 0) = ''err@user/1''"
  by (simp_all add: failed_world_def first_call_def eval_defs)

lemma slow_mutation_status: "snd slow_mutation = AwaitingData pending_mutation"
  by (simp add: slow_mutation_def mutate_def initial_world_def pending_mutation_def Let_def)

lemma overtaken_world_fields [simp]:
  "await_result overtaken_world (Promise 5) = Some (Rejected (JObj 3))"
  "MUTATION_TS overtaken_world ''user/1'' = Some 1009"
  "cache_map (cache overtaken_world) ''user/1'' = Some (JStr ''V2'')"
  by (simp_all add: overtaken_world_def slow_mutation_def mutate_def mutate_persist_def
        initial_world_def Let_def advance_clock_def settle_def await_result_def)

text \<open>The call that joins the first fetch, and the world after the first call has been
  resumed with the answer.\<close>

lemma joined_call_frame: "snd joined_call = Suspended joined_frame"
  by (simp add: joined_call_def joined_frame_def dedupe_opts_def first_call_def eval_defs)

lemma joined_call_world [simp]:
  "promises (fst joined_call) = Map.empty"
  "fetches (fst joined_call) = 1"
  "fetcher_calls (fst joined_call) = [FetcherCalled 0 [JStr ''user/1'']]"
  by (simp_all add: joined_call_def dedupe_opts_def first_call_def eval_defs)

lemmas resume_defs =
  first_answered_def delivered_world_def joined_call_def dedupe_opts_def first_call_def
  first_frame_def joined_frame_def revalidate_fulfilled_def shouldIgnoreRequest_def js_gt_def js_le_def
  ts_truthy_def emit_def cache_set_def Cache_set_def notify_def broadcastState_def
  onUpdate_state_def

lemma first_answered_fields [simp]:
  "snd (revalidate_fulfilled first_frame (JStr ''A'') delivered_world)"
  "promises first_answered 0 = Some (Fulfilled (JStr ''A''))"
  "h_key (hooks first_answered (Suc 0)) = ''user/1''"
  "h_keyErr (hooks first_answered (Suc 0)) = ''err@user/1''"
  "CONCURRENT_PROMISES_TS first_answered ''user/1'' = Some 1000"
  "MUTATION_TS first_answered ''user/1'' = None"
  "fetches first_answered = 1"
  "fetcher_calls first_answered = [FetcherCalled 0 [JStr ''user/1'']]"
  "st_data (stateRef (hooks first_answered 0)) = JStr ''A''"
  by (simp_all add: resume_defs eval_defs)

lemma joined_answered:
  "st_data (stateRef (hooks (fst (revalidate_fulfilled joined_frame (JStr ''A'') first_answered)) 0))
     = JStr ''A''"
  "st_data (stateRef (hooks (fst (revalidate_fulfilled joined_frame (JStr ''A'') first_answered)) (Suc 0)))
     = JStr ''A''"
  by (simp_all add: resume_defs eval_defs)

lemma delivered_world_promise [simp]:
  "promises delivered_world 0 = Some (Fulfilled (JStr ''A''))"
  by (simp add: delivered_world_def settle_def)

section \<open>Staleness, deduplication and the error slot\<close>

text \<open>
  C1. A call of \<open>revalidate\<close> that recorded \<open>startAt = t1\<close> is answered while the registry
  holds a later start \<open>t2 > t1\<close> for its key, or while a mutation of the key is recorded
  whose start is not before \<open>t1\<close>, or whose end is not before \<open>t1\<close>, or which has not ended
  (its end is 0). Then the call resolves to \<open>false\<close>. The cache is as it was: no data is
  written, no error key, no cache listener is called. No subscriber's \<open>onUpdate\<close> is
  called, no other hook changes, and the caller's own data and error stay as they were.
  What the call does is \<open>dispatch({isValidating: false})\<close>, which sets the hook's
  \<open>isValidating\<close> to false as long as the hook's effect has not been cleaned up (the
  cleanup replaces \<open>dispatch\<close> by a function that does nothing). \<open>MUTATION_TS[key]\<close> is read
  for its truth value, so the start of the mutation is a timestamp other than 0.
\<close>

theorem stale_result_discarded:
  assumes hid: "f_hook f = hid" and key: "h_key (hooks w hid) = key"
    and arrives: "await_result w (f_awaiting f) = Some (Fulfilled newData)"
    and start: "f_startAt f = Some t1"
    and stale:
      "(\<exists>t2. CONCURRENT_PROMISES_TS w key = Some t2 \<and> t1 < t2) \<or>
       (\<exists>ms. MUTATION_TS w key = Some ms \<and> ms \<noteq> 0 \<and>
          (t1 \<le> ms \<or> (\<exists>me. MUTATION_END_TS w key = Some me \<and> (t1 \<le> me \<or> me = 0))))"
  shows "\<exists>w'. revalidate_resume f w = Some (w', False) \<and>
           cache w' = cache w \<and>
           updater_calls w' = updater_calls w \<and>
           (\<forall>x. x \<noteq> hid \<longrightarrow> hooks w' x = hooks w x) \<and>
           st_data (stateRef (hooks w' hid)) = st_data (stateRef (hooks w hid)) \<and>
           st_error (stateRef (hooks w' hid)) = st_error (stateRef (hooks w hid)) \<and>
           (\<not> dispatch_cleared (hooks w hid) \<longrightarrow> \<not> st_isValidating (stateRef (hooks w' hid)))"
proof -
  from start stale have ign: "shouldIgnoreRequest w key (Some t1)"
    by (auto simp: shouldIgnoreRequest_def js_gt_def js_le_def ts_truthy_def)
  let ?w1 = "if f_shouldDeduping f then w
             else emit hid (OnSuccess hid newData)
                    (setTimeout (ForgetRequest key) (dedupingInterval (h_config (hooks w hid))) w)"
  let ?w' = "dispatch hid \<lparr>a_data = None, a_error = None, a_isValidating = Some False\<rparr> ?w1"
  have h1: "hooks ?w1 = hooks w" by simp
  from ign hid key start have r: "revalidate_fulfilled f newData w = (?w', False)"
    by (simp add: revalidate_fulfilled_def Let_def)
  with arrives have "revalidate_resume f w = Some (?w', False)"
    by (simp add: revalidate_resume_def)
  moreover have "cache ?w' = cache w" by simp
  moreover have "updater_calls ?w' = updater_calls w" by simp
  moreover have "\<forall>x. x \<noteq> hid \<longrightarrow> hooks ?w' x = hooks w x" by simp
  moreover have "st_data (stateRef (hooks ?w' hid)) = st_data (stateRef (hooks w hid))"
    by (simp only: dispatch_isValidating_data h1)
  moreover have "st_error (stateRef (hooks ?w' hid)) = st_error (stateRef (hooks w hid))"
    by (simp only: dispatch_isValidating_data h1)
  moreover have "\<not> dispatch_cleared (hooks w hid) \<longrightarrow> \<not> st_isValidating (stateRef (hooks ?w' hid))"
    using dispatch_isValidating [of ?w1 hid False] by (simp only: h1) simp
  ultimately show ?thesis by blast
qed

text \<open>An instance: hook 0 fetches at time 1000, hook 1 fetches again at time 2000, then the
  first fetch is answered.\<close>

theorem stale_result_discarded_witness:
  "\<exists>w'. revalidate_resume first_frame racing_world = Some (w', False) \<and>
        cache w' = cache racing_world \<and>
        updater_calls w' = updater_calls racing_world \<and>
        \<not> st_isValidating (stateRef (hooks w' 0))"
proof -
  have 1: "f_hook first_frame = 0" and 2: "h_key (hooks racing_world 0) = ''user/1''"
    and 3: "await_result racing_world (f_awaiting first_frame) = Some (Fulfilled (JStr ''A''))"
    and 4: "f_startAt first_frame = Some 1000"
    by (simp_all add: first_frame_def)
  have 5: "(\<exists>t2. CONCURRENT_PROMISES_TS racing_world ''user/1'' = Some t2 \<and> 1000 < t2) \<or>
       (\<exists>ms. MUTATION_TS racing_world ''user/1'' = Some ms \<and> ms \<noteq> 0 \<and>
          (1000 \<le> ms \<or>
           (\<exists>me. MUTATION_END_TS racing_world ''user/1'' = Some me \<and> (1000 \<le> me \<or> me = 0))))"
    by simp
  from stale_result_discarded [OF 1 2 3 4 5] show ?thesis by auto
qed

text \<open>A call that does not join a registered promise calls the fetcher once, registers what
  the fetcher returned and the time of the call, and awaits it.\<close>

lemma fresh_call_registers:
  assumes key: "h_key (hooks w hid) \<noteq> []"
    and fn: "h_fn (hooks w hid) = Some fn" and mounted: "\<not> unmountedRef (hooks w hid)"
    and fresh: "CONCURRENT_PROMISES w (h_key (hooks w hid)) = None \<or> dedupe opts \<noteq> Some True"
    and call: "fn (fetches w)
                 (case h_fnArgs (hooks w hid) of Some fnArgs \<Rightarrow> fnArgs
                  | None \<Rightarrow> [JStr (h_key (hooks w hid))]) = Return p"
  shows "\<exists>w' f. revalidate hid opts w = (w', Suspended f) \<and>
           \<not> f_shouldDeduping f \<and> f_awaiting f = p \<and> f_startAt f = Some (now w) \<and>
           CONCURRENT_PROMISES w' (h_key (hooks w hid)) = Some p \<and>
           CONCURRENT_PROMISES_TS w' (h_key (hooks w hid)) = Some (now w) \<and>
           fetches w' = fetches w + 1 \<and>
           fetcher_calls w' =
             fetcher_calls w @
               [FetcherCalled hid
                  (case h_fnArgs (hooks w hid) of Some fnArgs \<Rightarrow> fnArgs
                   | None \<Rightarrow> [JStr (h_key (hooks w hid))])]"
proof -
  let ?opts = "Object_assign \<lparr>dedupe = Some False, retryCount = None\<rparr> opts"
  from fresh
  have nd: "\<not> (read_promise w (h_key (hooks w hid)) \<noteq> Plain JUndefined \<and> dedupe ?opts = Some True)"
    by (auto simp: read_promise_def Object_assign_def split: option.splits)
  from key fn mounted call nd show ?thesis
    by (simp add: revalidate_def Let_def fetcher_calls_def
          dispatch_calls [unfolded fetcher_calls_def updater_calls_def])
qed

text \<open>What the rest of \<open>revalidate\<close> writes to the cache: the error under the error key after
  a rejection; the data under the key and \<open>undefined\<close> under the error key after an answer
  that is not ignored.\<close>

lemma revalidate_catch_cache:
  "cache_map (cache (revalidate_catch hid opts sd err w)) =
     (cache_map (cache w))(h_keyErr (hooks w hid) \<mapsto> err)"
  by (simp add: revalidate_catch_def Let_def)

lemma revalidate_fulfilled_cache:
  "\<not> shouldIgnoreRequest w (h_key (hooks w (f_hook f))) (f_startAt f) \<Longrightarrow>
   cache_map (cache (fst (revalidate_fulfilled f v w))) =
     (cache_map (cache w))(h_key (hooks w (f_hook f)) \<mapsto> v,
                           h_keyErr (hooks w (f_hook f)) \<mapsto> JUndefined)"
  by (simp add: revalidate_fulfilled_def Let_def)

text \<open>Nothing that runs after the \<open>await\<close> calls a fetcher: the subscribers are called with
  \<open>shouldRevalidate = false\<close>, and a retry is a timer.\<close>

lemma calls_frame [simp]:
  "fetcher_calls (cache_set k v w) = fetcher_calls w"
  "\<not> is_FetcherCalled ev \<Longrightarrow> fetcher_calls (emit hid ev w) = fetcher_calls w"
  "fetcher_calls (onUpdate_state u sr d e dd w) = fetcher_calls w"
  "fetcher_calls (emit_onErrorRetry hid err opts w) = fetcher_calls w"
  "fetcher_calls (w\<lparr>CONCURRENT_PROMISES := cp, CONCURRENT_PROMISES_TS := ts\<rparr>) = fetcher_calls w"
  by (simp_all add: fetcher_calls_def emit_def onUpdate_state_def emit_onErrorRetry_def Let_def
        dispatch_calls [unfolded fetcher_calls_def updater_calls_def]
        split: retry_handler.splits)

lemma broadcastState_calls [simp]:
  "fetcher_calls (broadcastState k d e w) = fetcher_calls w"
  by (simp add: broadcastState_def fold_preserves [where P = fetcher_calls] split: option.splits)

lemma revalidate_fulfilled_calls:
  "fetches (fst (revalidate_fulfilled f v w)) = fetches w"
  "fetcher_calls (fst (revalidate_fulfilled f v w)) = fetcher_calls w"
  by (simp_all add: revalidate_fulfilled_def Let_def)

lemma revalidate_catch_calls:
  "fetches (revalidate_catch hid opts sd err w) = fetches w"
  "fetcher_calls (revalidate_catch hid opts sd err w) = fetcher_calls w"
  by (simp_all add: revalidate_catch_def Let_def)

lemma revalidate_resume_promise:
  "f_awaiting f = Promise p \<Longrightarrow> promises w p = None \<Longrightarrow> revalidate_resume f w = None"
  "f_awaiting f = Promise p \<Longrightarrow> promises w p = Some (Fulfilled v) \<Longrightarrow>
     revalidate_resume f w = Some (revalidate_fulfilled f v w)"
  "f_awaiting f = Promise p \<Longrightarrow> promises w p = Some (Rejected e) \<Longrightarrow>
     revalidate_resume f w =
       Some (revalidate_catch (f_hook f) (f_opts f) (f_shouldDeduping f) e w, True)"
  by (simp_all add: revalidate_resume_def await_result_def)

lemma revalidate_fulfilled_True:
  "\<not> shouldIgnoreRequest w (h_key (hooks w (f_hook f))) (f_startAt f) \<Longrightarrow> f_shouldDeduping f \<Longrightarrow>
   snd (revalidate_fulfilled f v w)"
  by (simp add: revalidate_fulfilled_def Let_def)

text \<open>
  C2. A call \<open>revalidate({dedupe: true})\<close> of a mounted hook with a fetcher, made while a
  promise is registered for the hook's key, suspends on that promise and takes the
  registered timestamp as its \<open>startAt\<close>. No fetcher is called (neither the count of
  fetcher calls nor the trace of them changes) and the registry is left as it is.

  The suspended call stays suspended while the promise is pending. Once the promise has
  settled the call is resumed and resolves, again without any fetcher call. It continues
  with the promise's own settlement, as does every other call that awaits the promise,
  the original one included: after an answer \<open>v\<close> each of them runs the rest of the \<open>try\<close>
  block with \<open>newData = v\<close>, after a rejection \<open>e\<close> each runs the \<open>catch\<close> block with \<open>e\<close>. For
  the call that joined this means: resumed with \<open>v\<close> while its result is not to be ignored
  (and the hook's error key is not its key), it resolves to \<open>true\<close> and the cache holds \<open>v\<close>
  under the key; resumed with \<open>e\<close>, it resolves to \<open>true\<close> and the cache holds \<open>e\<close> under the
  error key.
\<close>

theorem deduped_call_joins:
  assumes key: "h_key (hooks w hid) = key" "key \<noteq> []"
    and fn: "h_fn (hooks w hid) = Some fn" and mounted: "\<not> unmountedRef (hooks w hid)"
    and opts: "dedupe opts = Some True"
    and inflight: "CONCURRENT_PROMISES w key = Some (Promise p)"
  shows "\<exists>w' f. revalidate hid opts w = (w', Suspended f) \<and>
           f_hook f = hid \<and>
           f_shouldDeduping f \<and>
           f_awaiting f = Promise p \<and>
           f_startAt f = CONCURRENT_PROMISES_TS w key \<and>
           fetches w' = fetches w \<and>
           fetcher_calls w' = fetcher_calls w \<and>
           CONCURRENT_PROMISES w' = CONCURRENT_PROMISES w \<and>
           CONCURRENT_PROMISES_TS w' = CONCURRENT_PROMISES_TS w \<and>
           (\<forall>w2. promises w2 p = None \<longrightarrow> revalidate_resume f w2 = None) \<and>
           (\<forall>w2 s. promises w2 p = Some s \<longrightarrow>
              (\<exists>w3 b. revalidate_resume f w2 = Some (w3, b) \<and>
                 fetches w3 = fetches w2 \<and> fetcher_calls w3 = fetcher_calls w2)) \<and>
           (\<forall>w2 v f0. promises w2 p = Some (Fulfilled v) \<and> f_awaiting f0 = Promise p \<longrightarrow>
              revalidate_resume f w2 = Some (revalidate_fulfilled f v w2) \<and>
              revalidate_resume f0 w2 = Some (revalidate_fulfilled f0 v w2)) \<and>
           (\<forall>w2 e f0. promises w2 p = Some (Rejected e) \<and> f_awaiting f0 = Promise p \<longrightarrow>
              revalidate_resume f w2 =
                Some (revalidate_catch hid (f_opts f) True e w2, True) \<and>
              revalidate_resume f0 w2 =
                Some (revalidate_catch (f_hook f0) (f_opts f0) (f_shouldDeduping f0) e w2, True)) \<and>
           (\<forall>w2 v. promises w2 p = Some (Fulfilled v) \<and>
                    h_keyErr (hooks w2 hid) \<noteq> h_key (hooks w2 hid) \<and>
                    \<not> shouldIgnoreRequest w2 (h_key (hooks w2 hid)) (f_startAt f) \<longrightarrow>
              (\<exists>w3. revalidate_resume f w2 = Some (w3, True) \<and>
                 cache_map (cache w3) (h_key (hooks w2 hid)) = Some v)) \<and>
           (\<forall>w2 e. promises w2 p = Some (Rejected e) \<longrightarrow>
              (\<exists>w3. revalidate_resume f w2 = Some (w3, True) \<and>
                 cache_map (cache w3) (h_keyErr (hooks w2 hid)) = Some e))"
proof -
  let ?w' = "dispatch hid \<lparr>a_data = None, a_error = None, a_isValidating = Some True\<rparr> w"
  let ?f = "\<lparr>f_hook = hid,
             f_opts = Object_assign \<lparr>dedupe = Some False, retryCount = None\<rparr> opts,
             f_shouldDeduping = True,
             f_startAt = CONCURRENT_PROMISES_TS w key,
             f_awaiting = Promise p\<rparr>"
  have call: "revalidate hid opts w = (?w', Suspended ?f)"
    using assms by (simp add: revalidate_def Let_def read_promise_def Object_assign_def)
  have aw: "f_awaiting ?f = Promise p" and fh: "f_hook ?f = hid" and sd: "f_shouldDeduping ?f"
    and st: "f_startAt ?f = CONCURRENT_PROMISES_TS w key"
    by simp_all
  have pending: "\<forall>w2. promises w2 p = None \<longrightarrow> revalidate_resume ?f w2 = None"
    using revalidate_resume_promise(1) [OF aw] by blast
  have settled: "\<forall>w2 s. promises w2 p = Some s \<longrightarrow>
              (\<exists>w3 b. revalidate_resume ?f w2 = Some (w3, b) \<and>
                 fetches w3 = fetches w2 \<and> fetcher_calls w3 = fetcher_calls w2)"
  proof (intro allI impI)
    fix w2 :: world and s assume s: "promises w2 p = Some s"
    show "\<exists>w3 b. revalidate_resume ?f w2 = Some (w3, b) \<and>
                 fetches w3 = fetches w2 \<and> fetcher_calls w3 = fetcher_calls w2"
    proof (cases s)
      case (Fulfilled v)
      with s revalidate_resume_promise(2) [OF aw]
      have "revalidate_resume ?f w2 = Some (revalidate_fulfilled ?f v w2)" by blast
      then have "revalidate_resume ?f w2 =
          Some (fst (revalidate_fulfilled ?f v w2), snd (revalidate_fulfilled ?f v w2))" by simp
      with revalidate_fulfilled_calls [of ?f v w2] show ?thesis by blast
    next
      case (Rejected e)
      with s revalidate_resume_promise(3) [OF aw]
      have "revalidate_resume ?f w2 =
          Some (revalidate_catch (f_hook ?f) (f_opts ?f) (f_shouldDeduping ?f) e w2, True)" by blast
      with revalidate_catch_calls [of "f_hook ?f" "f_opts ?f" "f_shouldDeduping ?f" e w2]
      show ?thesis by blast
    qed
  qed
  have same: "\<forall>w2 v f0. promises w2 p = Some (Fulfilled v) \<and> f_awaiting f0 = Promise p \<longrightarrow>
              revalidate_resume ?f w2 = Some (revalidate_fulfilled ?f v w2) \<and>
              revalidate_resume f0 w2 = Some (revalidate_fulfilled f0 v w2)"
    using revalidate_resume_promise(2) [OF aw] revalidate_resume_promise(2) by blast
  have same_err: "\<forall>w2 e f0. promises w2 p = Some (Rejected e) \<and> f_awaiting f0 = Promise p \<longrightarrow>
              revalidate_resume ?f w2 =
                Some (revalidate_catch hid (f_opts ?f) True e w2, True) \<and>
              revalidate_resume f0 w2 =
                Some (revalidate_catch (f_hook f0) (f_opts f0) (f_shouldDeduping f0) e w2, True)"
  proof (intro allI impI, elim conjE)
    fix w2 :: world and e and f0 :: frame assume e: "promises w2 p = Some (Rejected e)" and f0: "f_awaiting f0 = Promise p"
    from revalidate_resume_promise(3) [OF aw e]
    have "revalidate_resume ?f w2 = Some (revalidate_catch hid (f_opts ?f) True e w2, True)"
      by simp
    with revalidate_resume_promise(3) [OF f0 e]
    show "revalidate_resume ?f w2 =
                Some (revalidate_catch hid (f_opts ?f) True e w2, True) \<and>
              revalidate_resume f0 w2 =
                Some (revalidate_catch (f_hook f0) (f_opts f0) (f_shouldDeduping f0) e w2, True)"
      by simp
  qed
  have stored: "\<forall>w2 v. promises w2 p = Some (Fulfilled v) \<and>
                    h_keyErr (hooks w2 hid) \<noteq> h_key (hooks w2 hid) \<and>
                    \<not> shouldIgnoreRequest w2 (h_key (hooks w2 hid)) (f_startAt ?f) \<longrightarrow>
              (\<exists>w3. revalidate_resume ?f w2 = Some (w3, True) \<and>
                 cache_map (cache w3) (h_key (hooks w2 hid)) = Some v)"
  proof (intro allI impI, elim conjE)
    fix w2 :: world and v
    assume v: "promises w2 p = Some (Fulfilled v)"
      and ne: "h_keyErr (hooks w2 hid) \<noteq> h_key (hooks w2 hid)"
      and fresh: "\<not> shouldIgnoreRequest w2 (h_key (hooks w2 hid)) (f_startAt ?f)"
    from fresh have fresh': "\<not> shouldIgnoreRequest w2 (h_key (hooks w2 (f_hook ?f))) (f_startAt ?f)"
      by simp
    from revalidate_resume_promise(2) [OF aw v]
    have "revalidate_resume ?f w2 =
        Some (fst (revalidate_fulfilled ?f v w2), snd (revalidate_fulfilled ?f v w2))" by simp
    moreover from revalidate_fulfilled_True [OF fresh' sd] have "snd (revalidate_fulfilled ?f v w2)" .
    moreover from revalidate_fulfilled_cache [OF fresh', of v] ne
    have "cache_map (cache (fst (revalidate_fulfilled ?f v w2))) (h_key (hooks w2 hid)) = Some v"
      by simp
    ultimately show "\<exists>w3. revalidate_resume ?f w2 = Some (w3, True) \<and>
                 cache_map (cache w3) (h_key (hooks w2 hid)) = Some v"
      by simp
  qed
  have failed: "\<forall>w2 e. promises w2 p = Some (Rejected e) \<longrightarrow>
              (\<exists>w3. revalidate_resume ?f w2 = Some (w3, True) \<and>
                 cache_map (cache w3) (h_keyErr (hooks w2 hid)) = Some e)"
  proof (intro allI impI)
    fix w2 :: world and e assume e: "promises w2 p = Some (Rejected e)"
    from revalidate_resume_promise(3) [OF aw e]
    have "revalidate_resume ?f w2 = Some (revalidate_catch hid (f_opts ?f) True e w2, True)"
      by simp
    moreover have "cache_map (cache (revalidate_catch hid (f_opts ?f) True e w2))
        (h_keyErr (hooks w2 hid)) = Some e"
      by (simp add: revalidate_catch_cache)
    ultimately show "\<exists>w3. revalidate_resume ?f w2 = Some (w3, True) \<and>
                 cache_map (cache w3) (h_keyErr (hooks w2 hid)) = Some e"
      by blast
  qed
  have frame: "fetches ?w' = fetches w" "fetcher_calls ?w' = fetcher_calls w"
    "CONCURRENT_PROMISES ?w' = CONCURRENT_PROMISES w"
    "CONCURRENT_PROMISES_TS ?w' = CONCURRENT_PROMISES_TS w"
    by simp_all
  from call fh sd aw st frame pending settled same same_err stored failed
  show ?thesis by blast
qed

text \<open>An instance: after the first call of hook 0, hook 1 calls with \<open>dedupe\<close>. It awaits
  the promise and has the \<open>startAt\<close> of the first call's frame, and stays suspended while
  the promise is pending. The fetch is answered with \<open>'A'\<close>; the first call is resumed and
  resolves to \<open>true\<close>, then the call that joined is resumed and resolves to \<open>true\<close>. At the
  end the cache and both hooks have \<open>'A'\<close>, and the one fetcher call has stayed the only
  one.\<close>

theorem deduped_call_joins_witness:
  "snd joined_call = Suspended joined_frame
   \<and> f_awaiting joined_frame = f_awaiting first_frame
   \<and> f_startAt joined_frame = f_startAt first_frame
   \<and> fetches (fst joined_call) = 1
   \<and> fetcher_calls (fst joined_call) = [FetcherCalled 0 [JStr ''user/1'']]
   \<and> revalidate_resume joined_frame (fst joined_call) = None
   \<and> revalidate_resume first_frame delivered_world = Some (first_answered, True)
   \<and> (\<exists>w3. revalidate_resume joined_frame first_answered = Some (w3, True)
          \<and> cache_map (cache w3) ''user/1'' = Some (JStr ''A'')
          \<and> st_data (stateRef (hooks w3 0)) = JStr ''A''
          \<and> st_data (stateRef (hooks w3 1)) = JStr ''A''
          \<and> fetches w3 = 1
          \<and> fetcher_calls w3 = [FetcherCalled 0 [JStr ''user/1'']])"
proof -
  have 1: "h_key (hooks (fst first_call) 1) = ''user/1''" "''user/1'' \<noteq> []"
    and 2: "h_fn (hooks (fst first_call) 1) = Some (\<lambda>n args. Return (Promise n))"
    and 3: "\<not> unmountedRef (hooks (fst first_call) 1)"
    and 4: "dedupe dedupe_opts = Some True"
    and 5: "CONCURRENT_PROMISES (fst first_call) ''user/1'' = Some (Promise 0)"
    by (simp_all add: user_hook_eq dedupe_opts_def)
  from deduped_call_joins [OF 1 2 3 4 5] obtain w' f where
    call: "revalidate 1 dedupe_opts (fst first_call) = (w', Suspended f)"
    and pending: "\<forall>w2. promises w2 0 = None \<longrightarrow> revalidate_resume f w2 = None"
    and settled: "\<forall>w2 s. promises w2 0 = Some s \<longrightarrow>
              (\<exists>w3 b. revalidate_resume f w2 = Some (w3, b) \<and>
                 fetches w3 = fetches w2 \<and> fetcher_calls w3 = fetcher_calls w2)"
    and same: "\<forall>w2 v f0. promises w2 0 = Some (Fulfilled v) \<and> f_awaiting f0 = Promise 0 \<longrightarrow>
              revalidate_resume f w2 = Some (revalidate_fulfilled f v w2) \<and>
              revalidate_resume f0 w2 = Some (revalidate_fulfilled f0 v w2)"
    and stored: "\<forall>w2 v. promises w2 0 = Some (Fulfilled v) \<and>
                    h_keyErr (hooks w2 1) \<noteq> h_key (hooks w2 1) \<and>
                    \<not> shouldIgnoreRequest w2 (h_key (hooks w2 1)) (f_startAt f) \<longrightarrow>
              (\<exists>w3. revalidate_resume f w2 = Some (w3, True) \<and>
                 cache_map (cache w3) (h_key (hooks w2 1)) = Some v)"
    by blast
  from call joined_call_frame have f: "f = joined_frame" by (simp add: joined_call_def)
  have a: "snd joined_call = Suspended joined_frame" by (rule joined_call_frame)
  have b: "f_awaiting joined_frame = f_awaiting first_frame
      \<and> f_startAt joined_frame = f_startAt first_frame"
    by (simp add: joined_frame_def first_frame_def)
  have c: "fetches (fst joined_call) = 1
      \<and> fetcher_calls (fst joined_call) = [FetcherCalled 0 [JStr ''user/1'']]"
    by simp
  from pending have d: "revalidate_resume joined_frame (fst joined_call) = None"
    by (simp add: f)
  have "f_awaiting first_frame = Promise 0" by (simp add: first_frame_def)
  with same have "revalidate_resume first_frame delivered_world
      = Some (revalidate_fulfilled first_frame (JStr ''A'') delivered_world)"
    by simp
  then have e: "revalidate_resume first_frame delivered_world = Some (first_answered, True)"
    using first_answered_fields(1) by (simp add: first_answered_def prod_eq_iff)
  let ?w3 = "fst (revalidate_fulfilled joined_frame (JStr ''A'') first_answered)"
  have fresh: "\<not> shouldIgnoreRequest first_answered ''user/1'' (f_startAt joined_frame)"
    by (simp add: shouldIgnoreRequest_def joined_frame_def js_gt_def ts_truthy_def)
  from same have r: "revalidate_resume joined_frame first_answered
      = Some (revalidate_fulfilled joined_frame (JStr ''A'') first_answered)"
    by (simp add: f joined_frame_def)
  have pre: "promises first_answered 0 = Some (Fulfilled (JStr ''A'')) \<and>
      h_keyErr (hooks first_answered 1) \<noteq> h_key (hooks first_answered 1) \<and>
      \<not> shouldIgnoreRequest first_answered (h_key (hooks first_answered 1)) (f_startAt f)"
    using fresh by (simp add: f)
  from stored [rule_format, OF pre] obtain w3 where
    w3: "revalidate_resume joined_frame first_answered = Some (w3, True)"
    and cache: "cache_map (cache w3) ''user/1'' = Some (JStr ''A'')"
    by (auto simp: f)
  have "promises first_answered 0 = Some (Fulfilled (JStr ''A''))" by simp
  from settled [rule_format, OF this] obtain w4 b4 where
    w4: "revalidate_resume joined_frame first_answered = Some (w4, b4)"
    and calls: "fetches w4 = fetches first_answered" "fetcher_calls w4 = fetcher_calls first_answered"
    by (auto simp: f)
  from w3 w4 have "w4 = w3" by simp
  from r w3 have "revalidate_fulfilled joined_frame (JStr ''A'') first_answered = (w3, True)"
    by simp
  then have "w3 = ?w3" by simp
  with joined_answered have data: "st_data (stateRef (hooks w3 0)) = JStr ''A''"
    "st_data (stateRef (hooks w3 1)) = JStr ''A''"
    by simp_all
  from w3 cache data calls \<open>w4 = w3\<close>
  have "\<exists>w3. revalidate_resume joined_frame first_answered = Some (w3, True)
          \<and> cache_map (cache w3) ''user/1'' = Some (JStr ''A'')
          \<and> st_data (stateRef (hooks w3 0)) = JStr ''A''
          \<and> st_data (stateRef (hooks w3 1)) = JStr ''A''
          \<and> fetches w3 = 1
          \<and> fetcher_calls w3 = [FetcherCalled 0 [JStr ''user/1'']]"
    by simp
  with a b c d e show ?thesis by blast
qed

text \<open>
  C3. A \<open>mutate\<close> suspended on its new data is resumed when the data has settled. If by
  then \<open>MUTATION_TS[key]\<close> or \<open>CONCURRENT_PROMISES_TS[key]\<close> differs from what the call
  recorded before it suspended, the world is left exactly as it is: nothing is written to
  the cache, under the key or the error key, the end of the mutation is not recorded and
  no subscriber is called. The call returns the resolved value; after a rejection it
  throws the captured error, where, as in the code's \<open>if (error) throw error\<close>, an error is
  there when the captured value is truthy (after a rejection with a falsy value the call
  returns \<open>undefined\<close>, the data it does not have).
\<close>

theorem mutate_abandoned:
  assumes "await_result w (m_awaiting m) = Some s"
    and "m_beforeMutationTs m \<noteq> MUTATION_TS w (m_key m) \<or>
         m_beforeConcurrentPromisesTs m \<noteq> CONCURRENT_PROMISES_TS w (m_key m)"
  shows "mutate_resume m w =
           Some (w, Finished (case s of
                                Fulfilled v \<Rightarrow> Return v
                              | Rejected err \<Rightarrow> if truthy err then Throw err else Return JUndefined))"
  using assms by (auto simp: mutate_resume_def mutate_persist_def split: settlement.splits)

text \<open>An instance: \<open>mutate('user/1', promise)\<close> at time 1000, then
  \<open>mutate('user/1', 'V2', false)\<close> at time 1010, then the promise is rejected with an object.
  The first call throws that object and the cache keeps \<open>V2\<close>.\<close>

theorem mutate_abandoned_witness:
  "snd slow_mutation = AwaitingData pending_mutation \<and>
   mutate_resume pending_mutation overtaken_world =
     Some (overtaken_world, Finished (Throw (JObj 3))) \<and>
   cache_map (cache overtaken_world) ''user/1'' = Some (JStr ''V2'')"
proof -
  have 1: "await_result overtaken_world (m_awaiting pending_mutation) = Some (Rejected (JObj 3))"
    and 2: "m_beforeMutationTs pending_mutation
              \<noteq> MUTATION_TS overtaken_world (m_key pending_mutation) \<or>
            m_beforeConcurrentPromisesTs pending_mutation
              \<noteq> CONCURRENT_PROMISES_TS overtaken_world (m_key pending_mutation)"
    by (simp_all add: pending_mutation_def)
  from mutate_abandoned [OF 1 2] slow_mutation_status show ?thesis by simp
qed



text \<open>
  C7. A call of \<open>revalidate\<close> resolves to \<open>false\<close> before its \<open>await\<close> exactly when the key
  is empty, there is no fetcher, or the hook is unmounted; any other call that resolves
  without suspending (its fetcher threw) resolves to \<open>true\<close>. A suspended call resumes when
  what it awaits has settled, and not before; it resolves to \<open>false\<close> exactly when the
  value was fulfilled and \<open>shouldIgnoreRequest\<close> holds, and to \<open>true\<close> otherwise, also
  after a rejection.
\<close>

theorem revalidate_false_iff:
  "(snd (revalidate hid opts w) = Resolved False) =
     (h_key (hooks w hid) = [] \<or> h_fn (hooks w hid) = None \<or> unmountedRef (hooks w hid))
   \<and> map_option snd (revalidate_resume f w) =
       (case await_result w (f_awaiting f) of
          None \<Rightarrow> None
        | Some (Fulfilled v) \<Rightarrow>
            Some (\<not> shouldIgnoreRequest w (h_key (hooks w (f_hook f))) (f_startAt f))
        | Some (Rejected err) \<Rightarrow> Some True)"
proof
  show "(snd (revalidate hid opts w) = Resolved False) =
     (h_key (hooks w hid) = [] \<or> h_fn (hooks w hid) = None \<or> unmountedRef (hooks w hid))"
    by (auto simp: revalidate_def Let_def split: option.splits completion.splits)
  show "map_option snd (revalidate_resume f w) =
       (case await_result w (f_awaiting f) of
          None \<Rightarrow> None
        | Some (Fulfilled v) \<Rightarrow>
            Some (\<not> shouldIgnoreRequest w (h_key (hooks w (f_hook f))) (f_startAt f))
        | Some (Rejected err) \<Rightarrow> Some True)"
    by (auto simp: revalidate_resume_def revalidate_fulfilled_def Let_def
             split: option.splits settlement.splits)
qed

text \<open>Instances: a hook with no key; the first call of hook 0 resumed when its result is
  stale, when it is fresh, when the fetch was rejected, and while the fetch is pending.\<close>

theorem revalidate_false_iff_witness:
  "snd (revalidate 0 no_opts (initial_world blank_hook)) = Resolved False
   \<and> map_option snd (revalidate_resume first_frame racing_world) = Some False
   \<and> map_option snd (revalidate_resume first_frame answered_world) = Some True
   \<and> map_option snd (revalidate_resume first_frame failed_world) = Some True
   \<and> map_option snd (revalidate_resume first_frame (fst first_call)) = None"
proof -
  have "h_key (hooks (initial_world blank_hook) 0) = []"
    by (simp add: initial_world_def blank_hook_def)
  moreover have "shouldIgnoreRequest racing_world ''user/1'' (Some 1000)"
    by (simp add: shouldIgnoreRequest_def js_gt_def)
  moreover have "\<not> shouldIgnoreRequest answered_world ''user/1'' (Some 1000)"
    by (simp add: shouldIgnoreRequest_def js_gt_def ts_truthy_def)
  moreover have "await_result (fst first_call) (Promise 0) = None"
    by (simp add: await_result_def)
  ultimately show ?thesis
    using revalidate_false_iff [of 0 no_opts "initial_world blank_hook" first_frame]
      revalidate_false_iff [of 0 no_opts racing_world first_frame]
      revalidate_false_iff [of 0 no_opts answered_world first_frame]
      revalidate_false_iff [of 0 no_opts failed_world first_frame]
      revalidate_false_iff [of 0 no_opts "fst first_call" first_frame]
    by (simp add: first_frame_def)
qed

text \<open>
  C10. A falsy key (\<open>undefined\<close>, \<open>null\<close>, \<open>false\<close>, \<open>0\<close>, \<open>-0\<close>, \<open>NaN\<close> or the empty string;
  functions and arrays are truthy) is serialized to the empty canonical key and the empty
  error key. \<open>mutate\<close> and \<open>trigger\<close> on such a key return at once, with \<open>undefined\<close>, and
  leave the whole world as it is: the cache, the timestamps, the subscribers and their
  hooks.
\<close>

theorem falsy_key_is_no_resource:
  assumes "\<not> truthy key"
  shows "serializeKey hs key = (hs, ([], None, []))
       \<and> mutate key newData shouldRevalidate w = (w, Finished (Return JUndefined))
       \<and> trigger key shouldRevalidate w = (w, Finished (Return JUndefined))"
  using assms by (simp add: serializeKey_falsy trigger_def mutate_def)

theorem falsy_key_is_no_resource_witness:
  "serializeKey (hash_st user_world) (JNum NaN) = (hash_st user_world, ([], None, []))
   \<and> mutate (JNum NaN) (Value (JStr ''x'')) True user_world
       = (user_world, Finished (Return JUndefined))
   \<and> trigger (JNum NaN) True user_world = (user_world, Finished (Return JUndefined))"
proof -
  have "\<not> truthy (JNum NaN)" by simp
  from falsy_key_is_no_resource [OF this] show ?thesis by blast
qed

section \<open>The retry policy\<close>

lemma ToInt32_small: "- (2 ^ 31) \<le> i \<Longrightarrow> i < 2 ^ 31 \<Longrightarrow> ToInt32 i = i"
  by (simp add: ToInt32_def)

lemma shift_left_1_small:
  assumes "0 \<le> c" "c \<le> 8"
  shows "shift_left_1 c = 2 ^ nat c"
proof -
  from assms have m: "c mod 32 = c" by simp
  from assms have "nat c \<le> 8" by simp
  then have "(2::int) ^ nat c \<le> 2 ^ 8" by (rule power_increasing) simp
  then have "(2::int) ^ nat c < 2 ^ 31" by simp
  moreover have "- (2 ^ 31) \<le> (2::int) ^ nat c"
    by (rule order_trans [of _ 0]) simp_all
  ultimately show ?thesis by (simp add: shift_left_1_def m ToInt32_small)
qed

lemma tilde_tilde_small:
  assumes "0 \<le> x" "x < 2 ^ 31"
  shows "tilde_tilde x = \<lfloor>x\<rfloor>"
proof -
  from assms have "0 \<le> \<lfloor>x\<rfloor>" by simp
  moreover from assms have "\<lfloor>x\<rfloor> < 2 ^ 31" by (simp add: floor_less_iff)
  ultimately show ?thesis using assms by (simp add: tilde_tilde_def truncate_rat_def ToInt32_small)
qed

subsection \<open>Rounding to a double\<close>

text \<open>\<open>exponent x\<close> is the binary exponent of \<open>x\<close>, rounding moves a number by at most half
  an \<open>ulp\<close>, and a number \<open>m * 2^e\<close> with \<open>\<bar>m\<bar> < 2^53\<close> and \<open>-1074 \<le> e\<close> is a double: rounding
  leaves it as it is.\<close>

lemma pow2_powi: "pow2 e = 2 powi e"
  by (simp add: pow2_def power_int_def field_simps)

lemma bit_length_bounds: "0 < n \<Longrightarrow> 2 ^ (bit_length n - 1) \<le> n \<and> n < 2 ^ bit_length n"
proof (induction n rule: bit_length.induct)
  case (1 n)
  show ?case
  proof (cases "n div 2 = 0")
    case True
    with 1(2) have "n = 1" by presburger
    then show ?thesis by (simp add: bit_length.simps)
  next
    case False
    then have "0 < n div 2" by simp
    with 1 have ih: "2 ^ (bit_length (n div 2) - 1) \<le> n div 2" "n div 2 < 2 ^ bit_length (n div 2)"
      by simp_all
    have bl: "bit_length n = Suc (bit_length (n div 2))" using 1(2) by (subst bit_length.simps) simp
    have pos: "0 < bit_length (n div 2)" using False by (subst bit_length.simps) simp
    then have "(2::nat) ^ bit_length (n div 2) = 2 * 2 ^ (bit_length (n div 2) - 1)"
      by (cases "bit_length (n div 2)") simp_all
    with ih show ?thesis unfolding bl by simp presburger
  qed
qed

lemma pow2_pos: "0 < pow2 e"
  by (simp add: pow2_def)

lemma pow2_add: "pow2 (a + b) = pow2 a * pow2 b"
  by (simp add: pow2_powi power_int_add)

lemma pow2_mono: "a \<le> b \<Longrightarrow> pow2 a \<le> pow2 b"
  by (simp add: pow2_powi power_int_increasing)

lemma pow2_less_cancel: "pow2 a < pow2 b \<Longrightarrow> a < b"
  using pow2_mono [of b a] by (cases "a < b") simp_all

lemma pow2_nat: "0 \<le> e \<Longrightarrow> pow2 e = of_int (2 ^ nat e)"
  by (simp add: pow2_def)

lemma exponent_bounds:
  assumes "x \<noteq> 0"
  shows "pow2 (exponent x) \<le> \<bar>x\<bar> \<and> \<bar>x\<bar> < pow2 (exponent x + 1)"
proof (cases "1 \<le> \<bar>x\<bar>")
  case True
  let ?n = "nat \<lfloor>\<bar>x\<bar>\<rfloor>"
  from True have f: "1 \<le> \<lfloor>\<bar>x\<bar>\<rfloor>" by simp
  then have n: "0 < ?n" by simp
  note b = bit_length_bounds [OF n]
  have e: "exponent x = int (bit_length ?n) - 1" using True by (simp add: exponent_def)
  have pos: "0 < bit_length ?n" using n by (subst bit_length.simps) simp
  have "pow2 (exponent x) = of_nat (2 ^ (bit_length ?n - 1))"
    using pos by (simp add: e pow2_def nat_diff_distrib')
  also have "\<dots> \<le> of_nat ?n" using b by (simp only: of_nat_le_iff)
  also have "\<dots> = of_int \<lfloor>\<bar>x\<bar>\<rfloor>" using f by simp
  also have "\<dots> \<le> \<bar>x\<bar>" by simp
  finally have lo: "pow2 (exponent x) \<le> \<bar>x\<bar>" .
  from b have "?n < 2 ^ bit_length ?n" ..
  then have "?n + 1 \<le> 2 ^ bit_length ?n" by (simp only: Suc_eq_plus1 [symmetric] Suc_le_eq)
  then have "(of_nat (?n + 1) :: rat) \<le> of_nat (2 ^ bit_length ?n)" by (simp only: of_nat_le_iff)
  moreover have "\<bar>x\<bar> < of_int \<lfloor>\<bar>x\<bar>\<rfloor> + 1" by linarith
  moreover have "(of_nat (?n + 1) :: rat) = of_int \<lfloor>\<bar>x\<bar>\<rfloor> + 1" using f by simp
  moreover have "pow2 (exponent x + 1) = of_nat (2 ^ bit_length ?n)" by (simp add: e pow2_def)
  ultimately have "\<bar>x\<bar> < pow2 (exponent x + 1)" by linarith
  with lo show ?thesis ..
next
  case False
  let ?y = "1 / \<bar>x\<bar>"
  let ?k = "nat (\<lceil>?y\<rceil> - 1)"
  from assms have xp: "0 < \<bar>x\<bar>" by simp
  from False xp have y1: "1 < ?y" by (simp add: field_simps)
  then have "of_int 1 < ?y" by simp
  then have "1 < \<lceil>?y\<rceil>" by (simp only: less_ceiling_iff)
  then have c: "2 \<le> \<lceil>?y\<rceil>" by simp
  then have k: "0 < ?k" by simp
  note b = bit_length_bounds [OF k]
  have e: "exponent x = - int (bit_length ?k)" using False by (simp add: exponent_def)
  have pos: "0 < bit_length ?k" using k by (subst bit_length.simps) simp
  have ky: "of_nat ?k < ?y" "?y \<le> of_nat ?k + 1"
  proof -
    from c have "0 \<le> \<lceil>?y\<rceil> - 1" by linarith
    then have "(of_nat ?k :: rat) = of_int (\<lceil>?y\<rceil> - 1)" by (simp only: of_nat_nat)
    then have "(of_nat ?k :: rat) = of_int \<lceil>?y\<rceil> - 1" by simp
    moreover have "of_int \<lceil>?y\<rceil> - 1 < ?y" by linarith
    moreover have "?y \<le> of_int \<lceil>?y\<rceil>" by simp
    ultimately show "of_nat ?k < ?y" "?y \<le> of_nat ?k + 1" by simp_all
  qed
  from b have "?k < 2 ^ bit_length ?k" ..
  then have "?k + 1 \<le> 2 ^ bit_length ?k" by (simp only: Suc_eq_plus1 [symmetric] Suc_le_eq)
  then have "(of_nat (?k + 1) :: rat) \<le> of_nat (2 ^ bit_length ?k)" by (simp only: of_nat_le_iff)
  moreover have "(of_nat (2 ^ bit_length ?k) :: rat) = 2 ^ bit_length ?k" by simp
  moreover have "(of_nat (?k + 1) :: rat) = of_nat ?k + 1" by simp
  ultimately have "?y \<le> 2 ^ bit_length ?k" using ky(2) by linarith
  with xp have "1 \<le> 2 ^ bit_length ?k * \<bar>x\<bar>" by (simp add: field_simps)
  then have lo: "pow2 (exponent x) \<le> \<bar>x\<bar>"
    using pos by (simp add: e pow2_def field_simps)
  from b have "(of_nat (2 ^ (bit_length ?k - 1)) :: rat) \<le> of_nat ?k" by (simp only: of_nat_le_iff)
  moreover have "(of_nat (2 ^ (bit_length ?k - 1)) :: rat) = 2 ^ (bit_length ?k - 1)" by simp
  ultimately have "2 ^ (bit_length ?k - 1) < ?y" using ky(1) by linarith
  with xp have lt: "2 ^ (bit_length ?k - 1) * \<bar>x\<bar> < 1" by (simp add: field_simps)
  from lt have lt': "\<bar>x\<bar> < 1 / 2 ^ (bit_length ?k - 1)" by (simp add: field_simps)
  have "pow2 (exponent x + 1) = 1 / 2 ^ (bit_length ?k - 1)"
  proof (cases "bit_length ?k = 1")
    case True then show ?thesis by (simp add: e pow2_def)
  next
    case False
    with pos have "1 < bit_length ?k" by simp
    then have "nat (int (bit_length ?k) - 1) = bit_length ?k - 1" by simp
    with \<open>1 < bit_length ?k\<close> show ?thesis by (simp add: e pow2_def)
  qed
  with lt' have "\<bar>x\<bar> < pow2 (exponent x + 1)" by (simp only:)
  with lo show ?thesis ..
qed

lemma exponent_unique:
  assumes "pow2 e \<le> \<bar>x\<bar>" "\<bar>x\<bar> < pow2 (e + 1)"
  shows "exponent x = e"
proof -
  from assms(1) pow2_pos [of e] have "x \<noteq> 0" by auto
  note b = exponent_bounds [OF this]
  from b assms have "pow2 (exponent x) < pow2 (e + 1)" by linarith
  then have 1: "exponent x < e + 1" by (rule pow2_less_cancel)
  from b assms have "pow2 e < pow2 (exponent x + 1)" by linarith
  then have "e < exponent x + 1" by (rule pow2_less_cancel)
  with 1 show ?thesis by simp
qed

lemma round_half_even_int: "round_half_even (of_int k) = k"
  by (simp add: round_half_even_def)

lemma round_half_even_near: "\<bar>of_int (round_half_even y) - y\<bar> \<le> 1 / 2"
proof -
  have "of_int \<lfloor>y\<rfloor> \<le> y" "y < of_int \<lfloor>y\<rfloor> + 1" by linarith+
  then show ?thesis by (auto simp: round_half_even_def Let_def)
qed

lemma round_half_even_ge: "of_int a \<le> y \<Longrightarrow> a \<le> round_half_even y"
proof -
  assume "of_int a \<le> y"
  then have "a \<le> \<lfloor>y\<rfloor>" by (simp add: le_floor_iff)
  then show ?thesis by (auto simp: round_half_even_def Let_def)
qed

lemma round_half_even_le: 
  assumes "y \<le> of_int b" shows "round_half_even y \<le> b"
proof (cases "y = of_int b")
  case True then show ?thesis by (simp add: round_half_even_int)
next
  case False
  with assms have "y < of_int b" by simp
  then have "\<lfloor>y\<rfloor> < b" by (simp add: floor_less_iff)
  then show ?thesis by (auto simp: round_half_even_def Let_def)
qed

lemma round_half_even_less: 
  assumes "y < of_int b - 1 / 2" shows "round_half_even y < b"
proof -
  from round_half_even_near [of y] assms have "(of_int (round_half_even y) :: rat) < of_int b"
    by linarith
  then show ?thesis by (simp only: of_int_less_iff)
qed

lemma binary64_near: "\<bar>binary64 x - x\<bar> \<le> ulp x / 2"
proof (cases "x = 0")
  case True
  from pow2_pos [of "max (exponent 0) (- 1022) - 52"] show ?thesis
    by (simp add: True binary64_def ulp_def del: max_less_iff_conj)
next
  case False
  have u: "0 < ulp x" by (simp add: ulp_def pow2_pos)
  have "binary64 x - x = (of_int (round_half_even (x / ulp x)) - x / ulp x) * ulp x"
    using False u by (simp add: binary64_def field_simps)
  then have "\<bar>binary64 x - x\<bar> = \<bar>of_int (round_half_even (x / ulp x)) - x / ulp x\<bar> * ulp x"
    using u by (simp add: abs_mult)
  also have "\<dots> \<le> 1 / 2 * ulp x"
    using round_half_even_near [of "x / ulp x"] u by (intro mult_right_mono) simp_all
  finally show ?thesis by simp
qed

lemma scale_cancel: "0 < (u::rat) \<Longrightarrow> p = q * u \<Longrightarrow> m * p / u = m * q"
  by simp

lemma binary64_exact:
  assumes M: "\<bar>M\<bar> < 2 ^ 53" and e: "- 1074 \<le> e"
  shows "binary64 (of_int M * pow2 e) = of_int M * pow2 e"
proof (cases "M = 0")
  case True then show ?thesis by (simp add: binary64_def)
next
  case False
  let ?x = "of_int M * pow2 e :: rat"
  let ?u = "max (exponent ?x) (- 1022) - 52"
  from False pow2_pos [of e] have x: "?x \<noteq> 0" by simp
  have ax: "\<bar>?x\<bar> = of_int \<bar>M\<bar> * pow2 e" using pow2_pos [of e] by (simp add: abs_mult)
  from M have "(of_int \<bar>M\<bar> :: rat) < of_int (2 ^ 53)" by (simp only: of_int_less_iff)
  then have "of_int \<bar>M\<bar> * pow2 e < of_int (2 ^ 53) * pow2 e"
    using pow2_pos [of e] by (simp only: mult_less_cancel_right_pos)
  also have "(of_int (2 ^ 53) :: rat) = pow2 53" by (simp add: pow2_def)
  finally have "\<bar>?x\<bar> < pow2 (53 + e)" by (simp only: ax pow2_add)
  with exponent_bounds [OF x] have "pow2 (exponent ?x) < pow2 (53 + e)" by linarith
  then have "exponent ?x < 53 + e" by (rule pow2_less_cancel)
  with e have ue: "?u \<le> e" by simp
  have split: "pow2 e = pow2 (e - ?u) * pow2 ?u" by (simp only: pow2_add [symmetric]) simp
  have q: "pow2 (e - ?u) = of_int (2 ^ nat (e - ?u))" using ue by (intro pow2_nat) simp
  have "?x / pow2 ?u = of_int M * pow2 (e - ?u)"
    using pow2_pos [of ?u] split by (rule scale_cancel)
  then have "?x / ulp ?x = of_int (M * 2 ^ nat (e - ?u))"
    by (simp only: ulp_def q of_int_mult)
  then have "round_half_even (?x / ulp ?x) = M * 2 ^ nat (e - ?u)"
    by (simp only: round_half_even_int)
  then have "binary64 ?x = of_int (M * 2 ^ nat (e - ?u)) * pow2 ?u"
    using x by (simp add: binary64_def ulp_def)
  also have "\<dots> = of_int M * (pow2 (e - ?u) * pow2 ?u)"
    by (simp only: q of_int_mult mult.assoc)
  also have "\<dots> = of_int M * pow2 e" by (simp only: split [symmetric])
  finally show ?thesis .
qed

lemma binary64_exact_le:
  assumes M: "0 \<le> M" "M \<le> 2 ^ 53" and e: "- 1074 \<le> e"
  shows "binary64 (of_int M * pow2 e) = of_int M * pow2 e"
proof (cases "M = 2 ^ 53")
  case True
  have "(of_int M :: rat) = pow2 53" by (simp add: True pow2_def)
  then have "of_int M * pow2 e = of_int 1 * pow2 (53 + e)" by (simp add: pow2_add)
  moreover have "binary64 (of_int 1 * pow2 (53 + e)) = of_int 1 * pow2 (53 + e)"
    using e by (intro binary64_exact) simp_all
  ultimately show ?thesis by simp
next
  case False
  with M have "\<bar>M\<bar> < 2 ^ 53" by simp
  then show ?thesis using e by (rule binary64_exact)
qed

lemma binary64_of_int: "\<bar>k\<bar> < 2 ^ 53 \<Longrightarrow> binary64 (of_int k) = of_int k"
  using binary64_exact [of k 0] by (simp add: pow2_def)

text \<open>The sum \<open>r + 0.5\<close> for \<open>r\<close> in \<open>[0, 1)\<close>: the rounded sum is a double between \<open>0.5\<close> and
  \<open>1.5\<close>, both included, within \<open>2^-53\<close> of the exact sum.\<close>

lemma binary64_unit:
  assumes "1 / 2 \<le> x" "x < 3 / 2"
  shows "\<exists>K e. binary64 x = of_int K * pow2 e \<and> 0 \<le> K \<and> K \<le> 2 ^ 53 \<and> - 53 \<le> e \<and> e \<le> 0"
    and "1 / 2 \<le> binary64 x" and "binary64 x \<le> 3 / 2"
    and "\<bar>binary64 x - x\<bar> \<le> 1 / 2 ^ 53"
    and "x < 3 / 2 - 1 / 2 ^ 53 \<Longrightarrow> binary64 x < 3 / 2"
proof -
  from assms have x0: "x \<noteq> 0" by simp
  have main: "(\<exists>K e. binary64 x = of_int K * pow2 e \<and> 0 \<le> K \<and> K \<le> 2 ^ 53 \<and> - 53 \<le> e \<and> e \<le> 0)
     \<and> 1 / 2 \<le> binary64 x \<and> binary64 x \<le> 3 / 2 \<and> \<bar>binary64 x - x\<bar> \<le> 1 / 2 ^ 53
     \<and> (x < 3 / 2 - 1 / 2 ^ 53 \<longrightarrow> binary64 x < 3 / 2)"
  proof (cases "x < 1")
    case True
    have "exponent x = - 1" using assms True by (intro exponent_unique) (simp_all add: pow2_def)
    then have u: "ulp x = pow2 (- 53)" by (simp add: ulp_def)
    have p: "pow2 (- 53) = 1 / 2 ^ 53" by (simp add: pow2_def)
    let ?K = "round_half_even (x / ulp x)"
    have b: "binary64 x = of_int ?K * pow2 (- 53)" using x0 by (simp add: binary64_def u)
    have "of_int (2 ^ 52) \<le> x / ulp x" using assms by (simp add: u p)
    then have lo: "2 ^ 52 \<le> ?K" by (rule round_half_even_ge)
    have "x / ulp x \<le> of_int (2 ^ 53)" using True by (simp add: u p)
    then have hi: "?K \<le> 2 ^ 53" by (rule round_half_even_le)
    from lo have "(of_int (2 ^ 52) :: rat) \<le> of_int ?K" by (simp only: of_int_le_iff)
    then have 1: "1 / 2 \<le> binary64 x" by (simp add: b p)
    from hi have "(of_int ?K :: rat) \<le> of_int (2 ^ 53)" by (simp only: of_int_le_iff)
    then have 2: "binary64 x \<le> 1" by (simp add: b p)
    from binary64_near [of x] have 3: "\<bar>binary64 x - x\<bar> \<le> 1 / 2 ^ 53" by (simp add: u p)
    from lo hi b have "binary64 x = of_int ?K * pow2 (- 53) \<and> 0 \<le> ?K \<and> ?K \<le> 2 ^ 53
        \<and> - 53 \<le> (- 53 :: int) \<and> (- 53 :: int) \<le> 0" by simp
    then have "\<exists>K e. binary64 x = of_int K * pow2 e \<and> 0 \<le> K \<and> K \<le> 2 ^ 53 \<and> - 53 \<le> e \<and> e \<le> 0"
      by blast
    with 1 2 3 show ?thesis by simp
  next
    case False
    have "exponent x = 0" using assms False by (intro exponent_unique) (simp_all add: pow2_def)
    then have u: "ulp x = pow2 (- 52)" by (simp add: ulp_def)
    have p: "pow2 (- 52) = 1 / 2 ^ 52" by (simp add: pow2_def)
    let ?K = "round_half_even (x / ulp x)"
    have b: "binary64 x = of_int ?K * pow2 (- 52)" using x0 by (simp add: binary64_def u)
    have "of_int (2 ^ 52) \<le> x / ulp x" using False by (simp add: u p)
    then have lo: "2 ^ 52 \<le> ?K" by (rule round_half_even_ge)
    have "x / ulp x \<le> of_int (3 * 2 ^ 51)" using assms by (simp add: u p)
    then have hi: "?K \<le> 3 * 2 ^ 51" by (rule round_half_even_le)
    from lo have "(of_int (2 ^ 52) :: rat) \<le> of_int ?K" by (simp only: of_int_le_iff)
    then have 1: "1 \<le> binary64 x" by (simp add: b p)
    from hi have "(of_int ?K :: rat) \<le> of_int (3 * 2 ^ 51)" by (simp only: of_int_le_iff)
    then have 2: "binary64 x \<le> 3 / 2" by (simp add: b p)
    from binary64_near [of x] have 3: "\<bar>binary64 x - x\<bar> \<le> 1 / 2 ^ 53" by (simp add: u p)
    have 4: "binary64 x < 3 / 2" if "x < 3 / 2 - 1 / 2 ^ 53"
    proof -
      from that have "x / ulp x < of_int (3 * 2 ^ 51) - 1 / 2" by (simp add: u p)
      then have "?K < 3 * 2 ^ 51" by (rule round_half_even_less)
      then have "(of_int ?K :: rat) < of_int (3 * 2 ^ 51)" by (simp only: of_int_less_iff)
      then show ?thesis by (simp add: b p)
    qed
    from lo hi b have "binary64 x = of_int ?K * pow2 (- 52) \<and> 0 \<le> ?K \<and> ?K \<le> 2 ^ 53
        \<and> - 53 \<le> (- 52 :: int) \<and> (- 52 :: int) \<le> 0" by simp
    then have "\<exists>K e. binary64 x = of_int K * pow2 e \<and> 0 \<le> K \<and> K \<le> 2 ^ 53 \<and> - 53 \<le> e \<and> e \<le> 0"
      by blast
    with 1 2 3 4 show ?thesis by simp
  qed
  from main show "\<exists>K e. binary64 x = of_int K * pow2 e \<and> 0 \<le> K \<and> K \<le> 2 ^ 53 \<and> - 53 \<le> e \<and> e \<le> 0"
    and "1 / 2 \<le> binary64 x" and "binary64 x \<le> 3 / 2"
    and "\<bar>binary64 x - x\<bar> \<le> 1 / 2 ^ 53"
    by blast+
  from main show "x < 3 / 2 - 1 / 2 ^ 53 \<Longrightarrow> binary64 x < 3 / 2" by blast
qed

text \<open>Doubles that come up in the examples.\<close>

lemma binary64_numeral: "(numeral n :: int) < 2 ^ 53 \<Longrightarrow> binary64 (numeral n) = numeral n"
  using binary64_of_int [of "numeral n"] by simp

lemma binary64_one: "binary64 1 = 1"
  using binary64_of_int [of 1] by simp

lemma binary64_half: "binary64 (1 / 2) = 1 / 2"
  using binary64_exact [of 1 "- 1"] by (simp add: pow2_def)

lemma binary64_three_quarters: "binary64 (3 / 4) = 3 / 4"
  using binary64_exact [of 3 "- 2"] by (simp add: pow2_def)

lemma binary64_almost_one: "binary64 (almost_one + 1 / 2) = 3 / 2"
  by code_simp

lemma exact_almost_one: "\<lfloor>(almost_one + 1 / 2) * 2 ^ nat (min 1 8)\<rfloor> = 2"
  by code_simp

lemmas binary64_eval = binary64_numeral binary64_one binary64_half binary64_three_quarters

subsection \<open>The delay of a retry\<close>

lemma retry_timeout_formula:
  assumes n: "0 \<le> retryCount_or_0 opts" and r: "0 \<le> r" "r < 1"
    and i: "\<bar>errorRetryInterval config\<bar> \<le> 2 ^ 44"
  shows "retry_timeout r opts config =
           \<lfloor>binary64 (r + 1 / 2) * 2 ^ nat (min (retryCount_or_0 opts) 8)\<rfloor>
             * errorRetryInterval config"
proof -
  let ?c = "min (retryCount_or_0 opts) 8"
  let ?j = "binary64 (r + 1 / 2)"
  let ?I = "errorRetryInterval config"
  from n have c: "0 \<le> ?c" "?c \<le> 8" by simp_all
  then have s: "shift_left_1 ?c = 2 ^ nat ?c" by (rule shift_left_1_small)
  from r have x: "1 / 2 \<le> r + 1 / 2" "r + 1 / 2 < 3 / 2" by simp_all
  note u = binary64_unit [OF x]
  from u(1) obtain K e where j: "?j = of_int K * pow2 e"
    and K: "0 \<le> K" "K \<le> 2 ^ 53" and e: "- 53 \<le> e" "e \<le> 0" by blast
  have p: "(of_int (2 ^ nat ?c) :: rat) = pow2 ?c" using c by (simp add: pow2_def)
  have "?j * of_int (2 ^ nat ?c) = of_int K * pow2 (e + ?c)"
    by (simp only: j p pow2_add mult.assoc)
  moreover from e c have "- 1074 \<le> e + ?c" by simp
  from binary64_exact_le [OF K this]
  have "binary64 (of_int K * pow2 (e + ?c)) = of_int K * pow2 (e + ?c)" .
  ultimately have exact: "binary64 (?j * of_int (2 ^ nat ?c)) = ?j * of_int (2 ^ nat ?c)"
    by simp
  from c have "nat ?c \<le> 8" by simp
  then have "(2::rat) ^ nat ?c \<le> 2 ^ 8" by (rule power_increasing) simp
  then have p8: "(2::rat) ^ nat ?c \<le> 256" by simp
  have p0: "0 < (2::rat) ^ nat ?c" by simp
  from u(2) have j0: "0 \<le> ?j" by simp
  from u(3) p0 have "?j * 2 ^ nat ?c \<le> 3 / 2 * 2 ^ nat ?c" by (intro mult_right_mono) simp_all
  also from p8 have "3 / 2 * (2::rat) ^ nat ?c \<le> 384" by simp
  finally have ub: "?j * 2 ^ nat ?c \<le> 384" .
  then have ub31: "?j * 2 ^ nat ?c < 2 ^ 31" by simp
  from j0 have lb: "0 \<le> ?j * 2 ^ nat ?c" by simp
  let ?k = "\<lfloor>?j * 2 ^ nat ?c\<rfloor>"
  from tilde_tilde_small [OF lb ub31] have t: "tilde_tilde (?j * 2 ^ nat ?c) = ?k" .
  from lb have k0: "0 \<le> ?k" by simp
  from ub have "?j * 2 ^ nat ?c < of_int 384 + 1" by simp
  then have k1: "?k \<le> 384" by (simp only: floor_le_iff)
  have "\<bar>?k * ?I\<bar> = ?k * \<bar>?I\<bar>" using k0 by (simp add: abs_mult)
  also have "\<dots> \<le> 384 * 2 ^ 44" using k0 k1 i by (intro mult_mono) simp_all
  also have "\<dots> < (2::int) ^ 53" by simp
  finally have "\<bar>?k * ?I\<bar> < 2 ^ 53" .
  from binary64_of_int [OF this]
  have last: "binary64 (of_int ?k * of_int ?I) = of_int (?k * ?I)" by simp
  have "retry_timeout r opts config =
          \<lfloor>binary64 (of_int (tilde_tilde (binary64 (?j * of_int (2 ^ nat ?c)))) * of_int ?I)\<rfloor>"
    by (simp add: retry_timeout_def Let_def s)
  also have "\<dots> = \<lfloor>binary64 (of_int ?k * of_int ?I)\<rfloor>"
    using t by (simp only: exact) simp
  also have "\<dots> = ?k * ?I" by (simp only: last floor_of_int)
  finally show ?thesis .
qed

text \<open>
  C6. The default \<open>onErrorRetry\<close>, called for a retry with count \<open>n\<close> (a count: \<open>n\<close> is not
  negative) while the document is visible and the count does not exceed
  \<open>errorRetryCount\<close>, sets one timer for the hook's \<open>revalidate\<close> with the options it was
  given. Its delay is \<open>floor(j * 2^min(n, 8)) * errorRetryInterval\<close>, where \<open>j\<close> is the sum
  \<open>r + 0.5\<close> as the code computes it, in doubles: the double nearest to \<open>r + 0.5\<close>, \<open>r\<close>
  being the value \<open>Math.random()\<close> returns, a number in \<open>[0, 1)\<close>. The factor \<open>j\<close> is within
  \<open>2^-53\<close> of \<open>r + 0.5\<close> and lies in the closed range \<open>[0.5, 1.5]\<close>; it is below \<open>1.5\<close> when
  \<open>r < 1 - 2^-53\<close>. The power of two is \<open>2^n\<close> up to \<open>n = 8\<close> and never more than \<open>2^8\<close>. The
  other two operations are exact: the product with the power of two always, the product
  with the interval for an interval of magnitude up to \<open>2^44\<close> (about 557 years in
  milliseconds), which the statement assumes. That \<open>r\<close> is drawn uniformly is not part of
  the statement.
\<close>

theorem retry_delay:
  assumes visible: "documentVisible w" and within: "\<not> exceeds_retries config opts"
    and n: "retryCount opts = Some n" "0 \<le> n"
    and r: "randoms w (randoms_used w) = r" "0 \<le> r" "r < 1"
    and i: "\<bar>errorRetryInterval config\<bar> \<le> 2 ^ 44"
  shows "timers (onErrorRetry config hid opts w) =
           timers w @ [(Retry hid opts,
                         \<lfloor>binary64 (r + 1 / 2) * 2 ^ nat (min n 8)\<rfloor> * errorRetryInterval config)]
         \<and> 1 / 2 \<le> binary64 (r + 1 / 2) \<and> binary64 (r + 1 / 2) \<le> 3 / 2
         \<and> \<bar>binary64 (r + 1 / 2) - (r + 1 / 2)\<bar> \<le> 1 / 2 ^ 53
         \<and> (r < 1 - 1 / 2 ^ 53 \<longrightarrow> binary64 (r + 1 / 2) < 3 / 2)
         \<and> (2::int) ^ nat (min n 8) \<le> 2 ^ 8
         \<and> (n \<le> 8 \<longrightarrow> (2::int) ^ nat (min n 8) = 2 ^ nat n)"
proof -
  from n have n0: "0 \<le> retryCount_or_0 opts" and nn: "retryCount_or_0 opts = n"
    by (simp_all add: retryCount_or_0_def)
  from retry_timeout_formula [OF n0 r(2,3) i] visible within r(1)
  have "timers (onErrorRetry config hid opts w) =
           timers w @ [(Retry hid opts,
                         \<lfloor>binary64 (r + 1 / 2) * 2 ^ nat (min n 8)\<rfloor> * errorRetryInterval config)]"
    by (simp add: onErrorRetry_def Math_random_def nn)
  moreover from r have x: "1 / 2 \<le> r + 1 / 2" "r + 1 / 2 < 3 / 2" by simp_all
  note u = binary64_unit [OF x]
  have "r < 1 - 1 / 2 ^ 53 \<longrightarrow> binary64 (r + 1 / 2) < 3 / 2"
  proof
    assume "r < 1 - 1 / 2 ^ 53"
    then have "r + 1 / 2 < 3 / 2 - 1 / 2 ^ 53" by simp
    then show "binary64 (r + 1 / 2) < 3 / 2" by (rule u(5))
  qed
  moreover have "(2::int) ^ nat (min n 8) \<le> 2 ^ 8"
    by (rule power_increasing) (use n in simp_all)
  moreover have "n \<le> 8 \<longrightarrow> (2::int) ^ nat (min n 8) = 2 ^ nat n" by (simp add: min_def)
  ultimately show ?thesis using u(2,3,4) by blast
qed

text \<open>An instance: count 3, \<open>Math.random()\<close> returns a quarter, the interval is 5000. The sum
  \<open>0.75\<close> is a double, and the delay is \<open>floor(0.75 * 8) * 5000 = 30000\<close>.\<close>

theorem retry_delay_witness:
  "timers (onErrorRetry (defaultConfig False (=)) 0 retry3 lucky_world) = [(Retry 0 retry3, 30000)]
   \<and> binary64 (1 / 4 + 1 / 2) = 3 / 4"
proof -
  have 1: "documentVisible lucky_world"
    and 2: "\<not> exceeds_retries (defaultConfig False (=)) retry3"
    and 3: "retryCount retry3 = Some 3" "(0::int) \<le> 3"
    and 4: "randoms lucky_world (randoms_used lucky_world) = 1 / 4"
           "(0::rat) \<le> 1 / 4" "(1::rat) / 4 < 1"
    and 5: "\<bar>errorRetryInterval (defaultConfig False (=))\<bar> \<le> 2 ^ 44"
    by (simp_all add: lucky_world_def exceeds_retries_def defaultConfig_def retry3_def)
  have "\<lfloor>(3::rat) / 4 * 2 ^ nat (min 3 8)\<rfloor> = 6" by simp
  with retry_delay [OF 1 2 3 4 5, of 0] show ?thesis
    by (simp add: lucky_world_def defaultConfig_def binary64_three_quarters)
qed

text \<open>
  The formula with the exact sum \<open>r + 0.5\<close>, and the half-open range \<open>[0.5, 1.5)\<close> for the
  factor, fail at the largest value of \<open>Math.random()\<close>: \<open>r = 1 - 2^-53\<close> is below 1, the
  sum \<open>1.5 - 2^-53\<close> lies halfway between two doubles and is rounded to \<open>1.5\<close>. For a retry
  with count 1 and the interval 5000 the code sets the delay \<open>floor(1.5 * 2) * 5000 = 15000\<close>,
  where the exact formula gives \<open>floor((1.5 - 2^-53) * 2) * 5000 = 10000\<close>.
\<close>

theorem retry_delay_rounded_sum:
  "0 \<le> almost_one \<and> almost_one < 1
   \<and> randoms unlucky_world (randoms_used unlucky_world) = almost_one
   \<and> documentVisible unlucky_world
   \<and> retryCount retry1 = Some 1
   \<and> exceeds_retries (defaultConfig False (=)) retry1 = False
   \<and> timers (onErrorRetry (defaultConfig False (=)) 0 retry1 unlucky_world)
       = [(Retry 0 retry1, 15000)]
   \<and> \<lfloor>(almost_one + 1 / 2) * 2 ^ nat (min 1 8)\<rfloor> * errorRetryInterval (defaultConfig False (=))
       = 10000
   \<and> binary64 (almost_one + 1 / 2) = 3 / 2"
proof -
  have "0 \<le> almost_one \<and> almost_one < 1" by (simp add: almost_one_def)
  moreover have "randoms unlucky_world (randoms_used unlucky_world) = almost_one
      \<and> documentVisible unlucky_world"
    by (simp add: unlucky_world_def)
  moreover have "retryCount retry1 = Some 1
      \<and> exceeds_retries (defaultConfig False (=)) retry1 = False"
    by (simp add: retry1_def exceeds_retries_def defaultConfig_def)
  moreover have "timers (onErrorRetry (defaultConfig False (=)) 0 retry1 unlucky_world)
       = [(Retry 0 retry1, 15000)]"
    by (simp add: unlucky_world_def onErrorRetry_def exceeds_retries_def defaultConfig_def
          Math_random_def setTimeout_def retry_timeout_def retryCount_or_0_def retry1_def
          shift_left_1_def ToInt32_def tilde_tilde_def truncate_rat_def
          binary64_almost_one binary64_eval)
  moreover have "\<lfloor>(almost_one + 1 / 2) * 2 ^ nat (min 1 8)\<rfloor>
        * errorRetryInterval (defaultConfig False (=)) = 10000"
    by (simp only: exact_almost_one) (simp add: defaultConfig_def)
  ultimately show ?thesis using binary64_almost_one by blast
qed

text \<open>The options of a retry, as \<open>revalidate\<close> builds them: \<open>revalidateOpts\<close> has had a
  \<open>dedupe\<close> of its own since the first \<open>Object.assign\<close>, so the \<open>dedupe: true\<close> of the second
  one is always replaced by it. The retry has the caller's \<open>dedupe\<close>, \<open>false\<close> when the
  caller gave none.\<close>

lemma retry_options:
  "Object_assign
     (Object_assign \<lparr>dedupe = Some True, retryCount = None\<rparr>
        (Object_assign \<lparr>dedupe = Some False, retryCount = None\<rparr> opts0))
     \<lparr>dedupe = None, retryCount = Some n\<rparr>
   = \<lparr>dedupe = (case dedupe opts0 of Some d \<Rightarrow> Some d | None \<Rightarrow> Some False),
      retryCount = Some n\<rparr>"
  by (simp add: Object_assign_def split: option.splits)

text \<open>A retry whose count exceeds \<open>errorRetryCount\<close> is dropped without a trace; with no
  \<open>errorRetryCount\<close> no count exceeds it.\<close>

lemma retry_dropped:
  "errorRetryCount config = Some m \<Longrightarrow> retryCount opts = Some n \<Longrightarrow> m < n \<Longrightarrow>
   onErrorRetry config hid opts w = w"
  by (simp add: onErrorRetry_def exceeds_retries_def js_gt_def)

lemma retry_unbounded:
  "errorRetryCount config = None \<Longrightarrow> documentVisible w \<Longrightarrow>
   timers (onErrorRetry config hid opts w) =
     timers w @ [(Retry hid opts, retry_timeout (randoms w (randoms_used w)) opts config)]"
  by (simp add: onErrorRetry_def exceeds_retries_def Math_random_def)

text \<open>What a failed call sets for a retry, in general: for a mounted hook with
  \<open>shouldRetryOnError\<close> and the default \<open>onErrorRetry\<close>, in a visible document, the \<open>catch\<close>
  block adds at most one retry, with the count raised by one and with the \<open>dedupe\<close> the
  call was given (\<open>false\<close> if none).\<close>

lemma retries_append: "retries (xs @ ys) = retries xs @ retries ys"
  by (induction xs rule: retries.induct) simp_all

lemma retryCount_or_0_assign [simp]:
  "retryCount_or_0 (Object_assign \<lparr>dedupe = Some False, retryCount = None\<rparr> opts0)
     = retryCount_or_0 opts0"
  by (simp add: retryCount_or_0_def Object_assign_def split: option.splits)

lemma failed_call_retries:
  assumes "\<not> unmountedRef (hooks w hid)"
    and "shouldRetryOnError (h_config (hooks w hid))"
    and "onErrorRetryHandler (h_config (hooks w hid)) = DefaultOnErrorRetry"
    and "documentVisible w"
  shows "retries (timers (revalidate_catch hid
                    (Object_assign \<lparr>dedupe = Some False, retryCount = None\<rparr> opts0) sd err w)) =
         retries (timers w) @
           (let opts' = \<lparr>dedupe = (case dedupe opts0 of Some d \<Rightarrow> Some d | None \<Rightarrow> Some False),
                          retryCount = Some (retryCount_or_0 opts0 + 1)\<rparr>
            in if exceeds_retries (h_config (hooks w hid)) opts' then []
               else [(opts', retry_timeout (randoms w (randoms_used w)) opts'
                               (h_config (hooks w hid)))])"
  using assms
  by (simp add: revalidate_catch_def Let_def retry_options emit_onErrorRetry_def
        onErrorRetry_def Math_random_def retries_append)

lemmas run_defs =
  attempt_def revalidate_def revalidate_resume_def revalidate_catch_def
  failing_world_def failing_hook_def initial_world_def user_hook_eq defaultConfig_def
  no_opts_def Let_def Object_assign_def read_promise_def dispatch_def apply_action_def
  shouldUpdateState_def setTimeout_def await_result_def cache_set_def Cache_set_def notify_def
  emit_def emit_onErrorRetry_def onErrorRetry_def exceeds_retries_def js_gt_def
  Math_random_def retry_timeout_def retryCount_or_0_def tilde_tilde_def truncate_rat_def
  shift_left_1_def ToInt32_def broadcastState_def binary64_eval

text \<open>
  C5. A hook with \<open>errorRetryCount = 2\<close> and \<open>shouldRetryOnError\<close>, in a world where every
  fetch is rejected. A plain \<open>revalidate()\<close> fails and sets a retry with count 1; the retry
  fails and sets one with count 2; that one fails and sets nothing, its count 3 exceeding
  2. So exactly two retries are set, with counts 1 and 2 (and delays 5000 and 10000, as
  \<open>Math.random()\<close> returns 0 here). Both carry \<open>dedupe = false\<close>, the caller's default, and
  not \<open>dedupe = true\<close> as the comment in the code says.
\<close>

theorem retries_keep_callers_dedupe:
  "retries (timers
     (attempt 0 \<lparr>dedupe = Some False, retryCount = Some 2\<rparr>
        (attempt 0 \<lparr>dedupe = Some False, retryCount = Some 1\<rparr>
           (attempt 0 no_opts failing_world)))) =
     [(\<lparr>dedupe = Some False, retryCount = Some 1\<rparr>, 5000),
      (\<lparr>dedupe = Some False, retryCount = Some 2\<rparr>, 10000)]"
  by (simp add: run_defs)

end
